theory Spec2Isabelle
  imports Main
begin

section \<open>JavaScript values and strings\<close>

text \<open>
  The client of \<^verbatim>\<open>DataModules.ts\<close> (class \<^verbatim>\<open>SQLServerClient\<close>) is untyped at its
  boundary: identifiers, filter values and cells of driver rows are arbitrary JavaScript
  values. The primitives that occur are modelled by one datatype; numbers are the integers
  the driver and the callers pass (row counts, offsets, catalog ids).
\<close>

datatype jsval = JUndefined | JNull | JBool bool | JNum int | JStr string

definition digit_char :: "nat \<Rightarrow> char" where
  "digit_char n = ''0123456789'' ! n"

fun string_of_nat :: "nat \<Rightarrow> string" where
  "string_of_nat n =
     (if n < 10 then [digit_char n] else string_of_nat (n div 10) @ [digit_char (n mod 10)])"

definition string_of_int :: "int \<Rightarrow> string" where
  "string_of_int i = (if i < 0 then CHR ''-'' # string_of_nat (nat (- i)) else string_of_nat (nat i))"

text \<open>String conversion as a template literal \<^verbatim>\<open>`${v}`\<close> and \<^verbatim>\<open>RegExp.exec\<close> perform it.\<close>

fun to_string :: "jsval \<Rightarrow> string" where
  "to_string JUndefined = ''undefined''"
| "to_string JNull = ''null''"
| "to_string (JBool b) = (if b then ''true'' else ''false'')"
| "to_string (JNum i) = string_of_int i"
| "to_string (JStr s) = s"

text \<open>\<^verbatim>\<open>xs.join(sep)\<close> on an array of strings.\<close>

fun join :: "string \<Rightarrow> string list \<Rightarrow> string" where
  "join sep [] = []"
| "join sep [x] = x"
| "join sep (x # y # ys) = x @ sep @ join sep (y # ys)"

text \<open>
  \<^verbatim>\<open>s.replace(/c/g, rep)\<close> for a one-character pattern and a replacement without
  \<^verbatim>\<open>$\<close> patterns: every occurrence of the character is replaced.
\<close>

fun replace_all :: "char \<Rightarrow> string \<Rightarrow> string \<Rightarrow> string" where
  "replace_all c rep [] = []"
| "replace_all c rep (x # xs) = (if x = c then rep else [x]) @ replace_all c rep xs"

text \<open>\<^verbatim>\<open>s.toUpperCase()\<close> on ASCII text (the operators and directions the builders receive).\<close>

definition upper_char :: "char \<Rightarrow> char" where
  "upper_char c =
     (case List.find (\<lambda>p. fst p = c)
             (zip ''abcdefghijklmnopqrstuvwxyz'' ''ABCDEFGHIJKLMNOPQRSTUVWXYZ'') of
        Some p \<Rightarrow> snd p
      | None \<Rightarrow> c)"

definition toUpperCase :: "string \<Rightarrow> string" where
  "toUpperCase s = map upper_char s"

section \<open>Identifier wrapping\<close>

text \<open>
  \<^verbatim>\<open>
  wrapIdentifier(value) {
    if (_.isString(value)) {
      return (value !== '*' ? `[${value.replace(/\[/g, '[')}]` : '*');
    } return value
  }
  \<close>
\<close>

fun wrapIdentifier :: "jsval \<Rightarrow> jsval" where
  "wrapIdentifier (JStr v) =
     (if v \<noteq> ''*'' then JStr (''['' @ replace_all CHR ''['' ''['' v @ '']'') else JStr ''*'')"
| "wrapIdentifier v = v"

section \<open>Server version\<close>

record sqlserver_version =
  supportOffsetFetch :: bool
  releaseYear :: int
  versionString :: jsval

definition is_digit :: "char \<Rightarrow> bool" where
  "is_digit c = (c \<in> set ''0123456789'')"

text \<open>
  \<^verbatim>\<open>/SQL Server (\d+)/g.exec(s)\<close> on a fresh regular expression: the leftmost position
  where the literal is followed by at least one digit; the capture group is the longest
  run of digits there. The result is the capture, \<open>None\<close> for \<^verbatim>\<open>null\<close>.
\<close>

definition year_match_here :: "string \<Rightarrow> string option" where
  "year_match_here s =
     (if take 11 s = ''SQL Server '' then
        (let d = takeWhile is_digit (drop 11 s) in if d = [] then None else Some d)
      else None)"

fun yearRegex_exec :: "string \<Rightarrow> string option" where
  "yearRegex_exec [] = None"
| "yearRegex_exec (c # cs) =
     (case year_match_here (c # cs) of Some d \<Rightarrow> Some d | None \<Rightarrow> yearRegex_exec cs)"

text \<open>\<^verbatim>\<open>_.toNumber\<close> on a string of decimal digits.\<close>

definition digit_value :: "char \<Rightarrow> int" where
  "digit_value c = int (length (takeWhile (\<lambda>d. d \<noteq> c) ''0123456789''))"

definition toNumber :: "string \<Rightarrow> int" where
  "toNumber ds = foldl (\<lambda>a c. 10 * a + digit_value c) 0 ds"

text \<open>
  The part of \<^verbatim>\<open>getVersion\<close> after the query:
  \<^verbatim>\<open>
  const yearRegex = /SQL Server (\d+)/g
  const yearResults = yearRegex.exec(versionString)
  const releaseYear = (yearResults && _.toNumber(yearResults[1])) || 2017
  return { supportOffsetFetch: releaseYear >= 2012, releaseYear, versionString }
  \<close>
  A captured year of 0 is falsy and falls back to 2017 as well.
\<close>

definition versionFromString :: "jsval \<Rightarrow> sqlserver_version" where
  "versionFromString vs =
     (let yearResults = yearRegex_exec (to_string vs);
          year = (case yearResults of
                    None \<Rightarrow> 2017
                  | Some d \<Rightarrow> (if toNumber d = 0 then 2017 else toNumber d))
      in \<lparr> supportOffsetFetch = (year \<ge> 2012), releaseYear = year, versionString = vs \<rparr>)"

text \<open>The spec's wording: the pattern "SQL Server <digits>" occurs in the string.\<close>

definition has_year_pattern :: "string \<Rightarrow> bool" where
  "has_year_pattern s = (\<exists>p d r. s = p @ ''SQL Server '' @ d # r \<and> is_digit d)"

section \<open>The driver and the client state\<close>

text \<open>
  The wire driver (\<^verbatim>\<open>mssql\<close>) and the statement classifier
  (\<^verbatim>\<open>sql-query-identifier\<close>) are external. A result row is an object keyed by column
  name, or an array of cells in array-row mode; an object is the list of its properties in
  enumeration order.
\<close>

datatype err = DriverError string | TypeError string

type_synonym js_object = "(string \<times> jsval) list"

datatype row = ObjRow js_object | ArrRow "jsval list"

text \<open>
  One result set of the driver: its rows and its \<^verbatim>\<open>columns\<close> property when that is an
  array of column descriptors (their names), \<open>None\<close> when it is absent or not an array.
\<close>

record result_set =
  rs_rows :: "row list"
  rs_columns :: "string list option"

text \<open>
  The object a request resolves to. \<open>item0\<close> is what \<^verbatim>\<open>data[0]\<close> reads from it.
\<close>

record driver_data =
  recordsets :: "result_set list"
  recordset :: "result_set option"
  rowsAffected :: "int list"
  item0 :: "row option"

text \<open>
  The argument of \<^verbatim>\<open>driverExecuteQuery\<close>: an object with a \<^verbatim>\<open>query\<close> property or
  a bare string. The request is always sent as \<^verbatim>\<open>request.query(queryArgs.query)\<close>,
  which is \<^verbatim>\<open>undefined\<close> for a bare string.
\<close>

datatype queryArgs = QObj string | QStr string

fun query_of :: "queryArgs \<Rightarrow> string option" where
  "query_of (QObj q) = Some q"
| "query_of (QStr s) = None"

text \<open>
  The external world \<open>'w\<close> is the server with its databases, reached only through the
  driver: opening the pool and running one request, each of which may fail.
  \<open>identify\<close> is the classifier in its default strict mode, \<open>None\<close> when it throws;
  the non-strict call in \<^verbatim>\<open>driverExecuteQuery\<close> discards its result.
\<close>

record 'w driver =
  pool_connect :: "'w \<Rightarrow> err option \<times> 'w"
  request_query :: "string option \<Rightarrow> bool \<Rightarrow> 'w \<Rightarrow> (err + driver_data) \<times> 'w"
  identify :: "string \<Rightarrow> string list option"

text \<open>
  The client: the version stored by \<^verbatim>\<open>connect\<close>, whether \<^verbatim>\<open>this.connection\<close> is
  set, and the world. \<open>sent\<close> records every request handed to the driver, in order.
\<close>

record 'w client =
  version :: "sqlserver_version option"
  connection :: bool
  world :: 'w
  sent :: "string option list"

type_synonym ('w, 'a) action = "'w client \<Rightarrow> (err + 'a) \<times> 'w client"

text \<open>
  \<^verbatim>\<open>
  const runQuery = async (connection) => {
    const request = connection.request()
    request.arrayRowMode = arrayRowMode
    const data = await request.query(queryArgs.query)
    const rowsAffected = _.sum(data.rowsAffected)
    return { request, data, rowsAffected }
  };
  return this.connection ? runQuery(this.connection) : this.runWithConnection(runQuery)
  \<close>
\<close>

definition runQuery :: "'w driver \<Rightarrow> queryArgs \<Rightarrow> bool \<Rightarrow> ('w, driver_data \<times> int) action" where
  "runQuery D queryArgs arrayRowMode st =
     (let st1 = st\<lparr>sent := sent st @ [query_of queryArgs]\<rparr> in
      case request_query D (query_of queryArgs) arrayRowMode (world st) of
        (Inl e, w') \<Rightarrow> (Inl e, st1\<lparr>world := w'\<rparr>)
      | (Inr data, w') \<Rightarrow> (Inr (data, sum_list (rowsAffected data)), st1\<lparr>world := w'\<rparr>))"

definition runWithConnection :: "'w driver \<Rightarrow> ('w, 'a) action \<Rightarrow> ('w, 'a) action" where
  "runWithConnection D run st =
     (case pool_connect D (world st) of
        (Some e, w') \<Rightarrow> (Inl e, st\<lparr>world := w'\<rparr>)
      | (None, w') \<Rightarrow> run (st\<lparr>connection := True, world := w'\<rparr>))"

definition driverExecuteQuery ::
  "'w driver \<Rightarrow> queryArgs \<Rightarrow> bool \<Rightarrow> ('w, driver_data \<times> int) action" where
  "driverExecuteQuery D queryArgs arrayRowMode st =
     (if connection st then runQuery D queryArgs arrayRowMode st
      else runWithConnection D (runQuery D queryArgs arrayRowMode) st)"

section \<open>Shaping results\<close>

record field =
  field_id :: string
  field_name :: string

datatype command_label = Command string | NoCommand

record query_result =
  command :: command_label
  rows :: "row list"
  result_fields :: "field list"
  rowCount :: nat
  affectedRows :: int

definition first :: "'a list \<Rightarrow> 'a option" where
  "first xs = (case xs of [] \<Rightarrow> None | x # _ \<Rightarrow> Some x)"

definition nth_opt :: "'a list \<Rightarrow> nat \<Rightarrow> 'a option" where
  "nth_opt xs i = (if i < length xs then Some (xs ! i) else None)"

text \<open>\<^verbatim>\<open>Object.keys(r || {})\<close> for a row \<^verbatim>\<open>r\<close> that may be \<^verbatim>\<open>undefined\<close>.\<close>

fun object_keys :: "row option \<Rightarrow> string list" where
  "object_keys None = []"
| "object_keys (Some (ObjRow obj)) = map fst obj"
| "object_keys (Some (ArrRow vs)) = map string_of_nat [0..<length vs]"

fun get_prop :: "row \<Rightarrow> string \<Rightarrow> jsval" where
  "get_prop (ObjRow obj) k = (case map_of obj k of Some v \<Rightarrow> v | None \<Rightarrow> JUndefined)"
| "get_prop (ArrRow vs) k = JUndefined"

text \<open>
  \<^verbatim>\<open>
  private parseFields(data, columns) {
    if (columns && _.isArray(columns)) {
      return columns.map((c, idx) => { return { id: `c${idx}`, name: c.name } })
    } else {
      return Object.keys(data[0] || {}).map((name) => ({ name, id: name }))
    }
  }
  \<close>
\<close>

definition parseFields :: "row list \<Rightarrow> string list option \<Rightarrow> field list" where
  "parseFields data columns =
     (case columns of
        Some cs \<Rightarrow>
          map (\<lambda>(idx, c). \<lparr> field_id = ''c'' @ string_of_nat idx, field_name = c \<rparr>) (enumerate 0 cs)
      | None \<Rightarrow>
          map (\<lambda>name. \<lparr> field_id = name, field_name = name \<rparr>) (object_keys (first data)))"

text \<open>
  \<^verbatim>\<open>_.zipObject(props, values)\<close>: each property in turn is assigned the value at its
  position, \<^verbatim>\<open>undefined\<close> beyond the values' length (an object row has no length).
\<close>

fun assignValue :: "js_object \<Rightarrow> string \<Rightarrow> jsval \<Rightarrow> js_object" where
  "assignValue [] k v = [(k, v)]"
| "assignValue ((k', v') # obj) k v =
     (if k' = k then (k, v) # obj else (k', v') # assignValue obj k v)"

definition zipObject :: "string list \<Rightarrow> row \<Rightarrow> js_object" where
  "zipObject props r =
     (let vals = (case r of ArrRow vs \<Rightarrow> vs | ObjRow obj \<Rightarrow> []) in
      foldl (\<lambda>obj (i, k). assignValue obj k (if i < length vals then vals ! i else JUndefined))
            [] (enumerate 0 props))"

text \<open>
  \<^verbatim>\<open>
  private parseRowQueryResult(data, rowsAffected, command, columns, arrayRowMode = false) {
    // Fallback in case the identifier could not reconize the command
    const isSelect = !!(data.length || rowsAffected === 0)
    const fields = this.parseFields(data, columns)
    const fieldIds = fields.map(f => f.id)
    return {
      command: command || (isSelect && 'SELECT'),
      rows: arrayRowMode ? data.map(r => _.zipObject(fieldIds, r)) : data,
      fields: fields,
      rowCount: data.length,
      affectedRows: rowsAffected,
    }
  }
  \<close>
  \<open>command\<close> is \<open>None\<close> when \<^verbatim>\<open>commands[idx]\<close> is \<^verbatim>\<open>undefined\<close>; the empty string is
  falsy too.
\<close>

definition parseRowQueryResult ::
  "row list \<Rightarrow> int \<Rightarrow> string option \<Rightarrow> string list option \<Rightarrow> bool \<Rightarrow> query_result" where
  "parseRowQueryResult data rowsAffected' command' columns arrayRowMode =
     (let isSelect = (data \<noteq> [] \<or> rowsAffected' = 0);
          fields' = parseFields data columns;
          fieldIds = map field_id fields'
      in \<lparr> command =
             (case command' of
                Some c \<Rightarrow> (if c \<noteq> [] then Command c
                           else if isSelect then Command ''SELECT'' else NoCommand)
              | None \<Rightarrow> (if isSelect then Command ''SELECT'' else NoCommand)),
           rows = (if arrayRowMode then map (\<lambda>r. ObjRow (zipObject fieldIds r)) data else data),
           result_fields = fields',
           rowCount = length data,
           affectedRows = rowsAffected' \<rparr>)"

text \<open>
  \<^verbatim>\<open>
  private identifyCommands(queryText) {
    try { return identify(queryText); } catch (err) { return []; }
  }
  \<close>
  The elements are the statements' \<^verbatim>\<open>type\<close>.
\<close>

definition identifyCommands :: "'w driver \<Rightarrow> string \<Rightarrow> string list" where
  "identifyCommands D queryText = (case identify D queryText of Some ts \<Rightarrow> ts | None \<Rightarrow> [])"

text \<open>
  \<^verbatim>\<open>
  async executeQuery( queryText, arrayRowMode = false) {
    const { data, rowsAffected } =
      await this.driverExecuteQuery({ query: queryText, multiple: true }, arrayRowMode)
    const commands = this.identifyCommands(queryText).map((item) => item.type)
    // Executing only non select queries will not return results.
    // So we "fake" there is at least one result.
    const results = !data.recordsets.length && rowsAffected > 0 ? [[]] : data.recordsets
    return results.map((result, idx) =>
      this.parseRowQueryResult(result, rowsAffected, commands[idx], result?.columns, arrayRowMode))
  }
  \<close>
\<close>

definition placeholder :: result_set where
  "placeholder = \<lparr> rs_rows = [], rs_columns = None \<rparr>"

definition executeQuery :: "'w driver \<Rightarrow> string \<Rightarrow> bool \<Rightarrow> ('w, query_result list) action" where
  "executeQuery D queryText arrayRowMode st =
     (case driverExecuteQuery D (QObj queryText) arrayRowMode st of
        (Inl e, st') \<Rightarrow> (Inl e, st')
      | (Inr (data, rowsAffected'), st') \<Rightarrow>
          (let commands = identifyCommands D queryText;
               results = (if recordsets data = [] \<and> rowsAffected' > 0 then [placeholder]
                          else recordsets data)
           in (Inr (map (\<lambda>(idx, result).
                          parseRowQueryResult (rs_rows result) rowsAffected' (nth_opt commands idx)
                            (rs_columns result) arrayRowMode)
                        (enumerate 0 results)),
               st')))"

text \<open>
  \<^verbatim>\<open>
  async getVersion(): Promise<SQLServerVersion> {
    const result = await this.executeQuery("SELECT @@VERSION as version")
    const versionString = result[0]?.rows[0]?.version
    ...
  }
  \<close>
\<close>

definition version_query :: string where
  "version_query = ''SELECT @@VERSION as version''"

definition versionStringOf :: "query_result list \<Rightarrow> jsval" where
  "versionStringOf result =
     (case first result of
        None \<Rightarrow> JUndefined
      | Some r \<Rightarrow> (case first (rows r) of None \<Rightarrow> JUndefined | Some x \<Rightarrow> get_prop x ''version''))"

definition getVersion :: "'w driver \<Rightarrow> ('w, sqlserver_version) action" where
  "getVersion D st =
     (case executeQuery D version_query False st of
        (Inl e, st') \<Rightarrow> (Inl e, st')
      | (Inr result, st') \<Rightarrow> (Inr (versionFromString (versionStringOf result)), st'))"

text \<open>
  \<^verbatim>\<open>
  async connect(): Promise<void> {
    this.dbConfig = this.configDatabase(this.server, this.database)
    this.version = await this.getVersion()
    return
  }
  \<close>
\<close>

definition connect :: "'w driver \<Rightarrow> ('w, unit) action" where
  "connect D st =
     (case getVersion D st of
        (Inl e, st') \<Rightarrow> (Inl e, st')
      | (Inr v, st') \<Rightarrow> (Inr (), st'\<lparr>version := Some v\<rparr>))"

section \<open>SQL fragment builders\<close>

text \<open>
  \<^verbatim>\<open>D.escapeString\<close> (the dialect data) and \<^verbatim>\<open>joinFilters\<close> (the common utilities)
  are imported by the client and are parameters here.
\<close>

datatype filter_value = Scalar jsval | Array "jsval list"

record filter_item =
  filter_field :: string
  filter_type :: string
  filter_value :: filter_value

datatype filters = FilterString string | FilterList "filter_item list" | NoFilters

record helpers =
  escapeString :: "jsval \<Rightarrow> bool \<Rightarrow> string"
  joinFilters :: "string list \<Rightarrow> filter_item list \<Rightarrow> string"

text \<open>An order entry: a bare field, or an object \<^verbatim>\<open>{field, dir}\<close>.\<close>

datatype order_item = OrderField string | OrderObj string string

definition wrapped :: "string \<Rightarrow> string" where
  "wrapped name = to_string (wrapIdentifier (JStr name))"

text \<open>
  \<^verbatim>\<open>
  private genOrderByString(orderBy) {
    if (!orderBy) return ""
    let orderByString = "ORDER BY (SELECT NULL)"
    if (orderBy && orderBy.length > 0) {
      orderByString = "ORDER BY " + (orderBy.map((item: {field: any, dir: any}) => {
        if (_.isObject(item)) {
          return `${this.wrapIdentifier(item.field)} ${item.dir.toUpperCase()}`
        } else {
          return this.wrapIdentifier(item)
        }
      })).join(",")
    }
    return orderByString
  }
  \<close>
  \<open>None\<close> is a \<^verbatim>\<open>null\<close> or \<^verbatim>\<open>undefined\<close> order list.
\<close>

fun order_entry :: "order_item \<Rightarrow> string" where
  "order_entry (OrderObj fld dir) = wrapped fld @ '' '' @ toUpperCase dir"
| "order_entry (OrderField item) = wrapped item"

definition genOrderByString :: "order_item list option \<Rightarrow> string" where
  "genOrderByString orderBy =
     (case orderBy of
        None \<Rightarrow> []
      | Some items \<Rightarrow>
          (if length items > 0 then ''ORDER BY '' @ join '','' (map order_entry items)
           else ''ORDER BY (SELECT NULL)''))"

text \<open>
  \<^verbatim>\<open>
  private buildFilterString(filters) {
    let filterString = ""
    if (filters && filters.length > 0) {
      const allFilters = filters.map((item) => {
        const wrappedValue = _.isArray(item.value) ?
          `(${item.value.map((v) => D.escapeString(v, true)).join(',')})` :
          D.escapeString(item.value, true)
        return `${this.wrapIdentifier(item.field)} ${item.type.toUpperCase()} ${wrappedValue}`
      })
      filterString = "WHERE " + joinFilters(allFilters, filters)
    }
    return filterString
  }
  \<close>
\<close>

definition wrappedValue :: "helpers \<Rightarrow> filter_value \<Rightarrow> string" where
  "wrappedValue H v =
     (case v of
        Array vs \<Rightarrow> ''('' @ join '','' (map (\<lambda>x. escapeString H x True) vs) @ '')''
      | Scalar x \<Rightarrow> escapeString H x True)"

definition filter_entry :: "helpers \<Rightarrow> filter_item \<Rightarrow> string" where
  "filter_entry H item =
     wrapped (filter_field item) @ '' '' @ toUpperCase (filter_type item) @ '' '' @
     wrappedValue H (filter_value item)"

definition buildFilterString :: "helpers \<Rightarrow> filter_item list option \<Rightarrow> string" where
  "buildFilterString H fs =
     (case fs of
        None \<Rightarrow> []
      | Some items \<Rightarrow>
          (if length items > 0 then ''WHERE '' @ joinFilters H (map (filter_entry H) items) items
           else []))"

text \<open>
  \<^verbatim>\<open>_.isString(filters) ? `WHERE ${filters}` : this.buildFilterString(filters)\<close>
\<close>

definition filterStringOf :: "helpers \<Rightarrow> filters \<Rightarrow> string" where
  "filterStringOf H f =
     (case f of
        FilterString s \<Rightarrow> ''WHERE '' @ s
      | FilterList items \<Rightarrow> buildFilterString H (Some items)
      | NoFilters \<Rightarrow> buildFilterString H None)"

text \<open>\<^verbatim>\<open>schema ? `${this.wrapIdentifier(schema)}.` : ''\<close>; the empty string is falsy.\<close>

definition schemaStringOf :: "string option \<Rightarrow> string" where
  "schemaStringOf schema =
     (case schema of None \<Rightarrow> [] | Some s \<Rightarrow> (if s = [] then [] else wrapped s @ ''.''))"

text \<open>An offset or limit is a number or \<^verbatim>\<open>null\<close> (\<open>None\<close>).\<close>

definition num_string :: "int option \<Rightarrow> string" where
  "num_string n = (case n of None \<Rightarrow> ''null'' | Some i \<Rightarrow> string_of_int i)"

definition num_value :: "int option \<Rightarrow> int" where
  "num_value n = (case n of None \<Rightarrow> 0 | Some i \<Rightarrow> i)"

text \<open>
  \<^verbatim>\<open>
  private genSelectOld(table, offset, limit, orderBy, filters, schema, selects) {
    const selectString = selects.map((s) => this.wrapIdentifier(s)).join(", ")
    const orderByString = this.genOrderByString(orderBy)
    const filterString = _.isString(filters) ? `WHERE ${filters}` : this.buildFilterString(filters)
    const lastRow = offset + limit
    const schemaString = schema ? `${this.wrapIdentifier(schema)}.` : ''
    const query = `
      WITH CTE AS
      (
          SELECT ${selectString}
                , ROW_NUMBER() OVER (${orderByString}) as RowNumber
          FROM ${schemaString}${this.wrapIdentifier(table)}
          ${filterString}
      )
      SELECT *
            -- get the total records so the web layer can work out
            -- how many pages there are
            , (SELECT COUNT(*) FROM CTE) AS TotalRecords
      FROM CTE
      WHERE RowNumber BETWEEN ${offset} AND ${lastRow}
      ORDER BY RowNumber ASC
    `
    return query
  }
  \<close>
\<close>

definition genSelectOld ::
  "helpers \<Rightarrow> string \<Rightarrow> int option \<Rightarrow> int option \<Rightarrow> order_item list option \<Rightarrow> filters \<Rightarrow>
   string option \<Rightarrow> string list \<Rightarrow> string" where
  "genSelectOld H table offset limit orderBy filters' schema selects =
     (let selectString = join '', '' (map wrapped selects);
          orderByString = genOrderByString orderBy;
          filterString = filterStringOf H filters';
          lastRow = num_value offset + num_value limit;
          schemaString = schemaStringOf schema
      in ''\<newline>      WITH CTE AS\<newline>      (\<newline>          SELECT '' @ selectString @
         ''\<newline>                , ROW_NUMBER() OVER ('' @ orderByString @ '') as RowNumber'' @
         ''\<newline>          FROM '' @ schemaString @ wrapped table @
         ''\<newline>          '' @ filterString @
         ''\<newline>      )\<newline>      SELECT *'' @
         ''\<newline>            -- get the total records so the web layer can work out'' @
         ''\<newline>            -- how many pages there are'' @
         ''\<newline>            , (SELECT COUNT(*) FROM CTE) AS TotalRecords'' @
         ''\<newline>      FROM CTE'' @
         ''\<newline>      WHERE RowNumber BETWEEN '' @ num_string offset @ '' AND '' @
         string_of_int lastRow @
         ''\<newline>      ORDER BY RowNumber ASC\<newline>    '')"

text \<open>
  \<^verbatim>\<open>
  private genSelectNew(table, offset, limit, orderBy, filters, schema, selects) {
    const filterString = _.isString(filters) ? `WHERE ${filters}` : this.buildFilterString(filters)
    const orderByString = this.genOrderByString(orderBy)
    const schemaString = schema ? `${this.wrapIdentifier(schema)}.` : ''
    const selectSQL = `SELECT ${selects.map((s) => this.wrapIdentifier(s)).join(", ")}`
    const baseSQL = `
      FROM ${schemaString}${this.wrapIdentifier(table)}
      ${filterString}
    `
    const offsetString = (_.isNumber(offset) && _.isNumber(limit)) ?
      `OFFSET ${offset} ROWS FETCH NEXT ${limit} ROWS ONLY` : ''
    const query = `
      ${selectSQL} ${baseSQL}
      ${orderByString}
      ${offsetString}
      `
    return query
  }
  \<close>
\<close>

definition genSelectNew ::
  "helpers \<Rightarrow> string \<Rightarrow> int option \<Rightarrow> int option \<Rightarrow> order_item list option \<Rightarrow> filters \<Rightarrow>
   string option \<Rightarrow> string list \<Rightarrow> string" where
  "genSelectNew H table offset limit orderBy filters' schema selects =
     (let filterString = filterStringOf H filters';
          orderByString = genOrderByString orderBy;
          schemaString = schemaStringOf schema;
          selectSQL = ''SELECT '' @ join '', '' (map wrapped selects);
          baseSQL = ''\<newline>      FROM '' @ schemaString @ wrapped table @
                    ''\<newline>      '' @ filterString @ ''\<newline>    '';
          offsetString =
            (case (offset, limit) of
               (Some off, Some lim) \<Rightarrow>
                 ''OFFSET '' @ string_of_int off @ '' ROWS FETCH NEXT '' @ string_of_int lim @
                 '' ROWS ONLY''
             | _ \<Rightarrow> [])
      in ''\<newline>      '' @ selectSQL @ '' '' @ baseSQL @
         ''\<newline>      '' @ orderByString @
         ''\<newline>      '' @ offsetString @ ''\<newline>      '')"

section \<open>Paginated selection\<close>

text \<open>
  \<^verbatim>\<open>
  async selectTopSql(table, offset, limit, orderBy, filters, schema, selects) {
    const version = await this.getVersion();
    return version.supportOffsetFetch
      ? this.genSelectNew(table, offset, limit, orderBy, filters, schema, selects)
      : this.genSelectOld(table, offset, limit, orderBy, filters, schema, selects);
  }
  \<close>
\<close>

definition selectTopSql ::
  "'w driver \<Rightarrow> helpers \<Rightarrow> string \<Rightarrow> int option \<Rightarrow> int option \<Rightarrow> order_item list option \<Rightarrow>
   filters \<Rightarrow> string option \<Rightarrow> string list \<Rightarrow> ('w, string) action" where
  "selectTopSql D H table offset limit orderBy filters' schema selects st =
     (case getVersion D st of
        (Inl e, st') \<Rightarrow> (Inl e, st')
      | (Inr v, st') \<Rightarrow>
          (Inr (if supportOffsetFetch v
                then genSelectNew H table offset limit orderBy filters' schema selects
                else genSelectOld H table offset limit orderBy filters' schema selects),
           st'))"

text \<open>
  \<^verbatim>\<open>
  async selectTop(table, offset, limit, orderBy, filters, schema, selects = ['*']) {
    const query = await this.selectTopSql(table, offset, limit, orderBy, filters, schema, selects)
    const result = await this.driverExecuteQuery({ query })
    return {
      result: result.data.recordset,
      fields: Object.keys(result.data.recordset[0] || {})
    }
  }
  \<close>
  Indexing an \<^verbatim>\<open>undefined\<close> record set throws a \<^verbatim>\<open>TypeError\<close>.
\<close>

record top_result =
  top_result :: "row list"
  top_fields :: "string list"

definition selectTop ::
  "'w driver \<Rightarrow> helpers \<Rightarrow> string \<Rightarrow> int option \<Rightarrow> int option \<Rightarrow> order_item list option \<Rightarrow>
   filters \<Rightarrow> string option \<Rightarrow> string list option \<Rightarrow> ('w, top_result) action" where
  "selectTop D H table offset limit orderBy filters' schema selects st =
     (let selects' = (case selects of None \<Rightarrow> [''*''] | Some xs \<Rightarrow> xs) in
      case selectTopSql D H table offset limit orderBy filters' schema selects' st of
        (Inl e, st1) \<Rightarrow> (Inl e, st1)
      | (Inr query, st1) \<Rightarrow>
          (case driverExecuteQuery D (QObj query) False st1 of
             (Inl e, st2) \<Rightarrow> (Inl e, st2)
           | (Inr (data, n), st2) \<Rightarrow>
               (case recordset data of
                  None \<Rightarrow> (Inl (TypeError ''Cannot read properties of undefined''), st2)
                | Some rs \<Rightarrow>
                    (Inr \<lparr> top_result = rs_rows rs,
                           top_fields = object_keys (first (rs_rows rs)) \<rparr>, st2))))"

section \<open>Applying a change set\<close>

text \<open>
  The statement builders come from the shared utilities and are parameters: each turns a
  list of change descriptors into SQL statements (the re-selection builder into the
  arguments of one driver call per update).
\<close>

record ('i, 'u, 'd) changes =
  inserts :: "'i list option"
  updates :: "'u list option"
  deletes :: "'d list option"

record ('i, 'u, 'd) builders =
  buildInsertQueries :: "'i list \<Rightarrow> string list"
  buildUpdateQueries :: "'u list \<Rightarrow> string list"
  buildDeleteQueries :: "'d list \<Rightarrow> string list"
  buildSelectQueriesFromUpdates :: "'u list \<Rightarrow> queryArgs list"

text \<open>
  \<^verbatim>\<open>
  let sql = ['SET XACT_ABORT ON', 'BEGIN TRANSACTION']
  if (changes.inserts) { sql = sql.concat(buildInsertQueries(this.knex, changes.inserts)) }
  if (changes.updates) { sql = sql.concat(buildUpdateQueries(this.knex, changes.updates)) }
  if (changes.deletes) { sql = sql.concat(buildDeleteQueries(this.knex, changes.deletes)) }
  sql.push('COMMIT')
  \<close>
  An absent list is falsy; an empty array is truthy and goes through its builder.
\<close>

definition block :: "('a list \<Rightarrow> string list) \<Rightarrow> 'a list option \<Rightarrow> string list" where
  "block build items = (case items of None \<Rightarrow> [] | Some xs \<Rightarrow> build xs)"

definition change_statements ::
  "('i, 'u, 'd) builders \<Rightarrow> ('i, 'u, 'd) changes \<Rightarrow> string list" where
  "change_statements B ch =
     [''SET XACT_ABORT ON'', ''BEGIN TRANSACTION''] @
     block (buildInsertQueries B) (inserts ch) @
     block (buildUpdateQueries B) (updates ch) @
     block (buildDeleteQueries B) (deletes ch) @
     [''COMMIT'']"

text \<open>
  \<^verbatim>\<open>
  for (let index = 0; index < selectQueries.length; index++) {
    const element = selectQueries[index];
    const r = await this.driverExecuteQuery(element)
    if (r.data[0]) results.push(r.data[0])
  }
  \<close>
\<close>

fun reselect :: "'w driver \<Rightarrow> queryArgs list \<Rightarrow> row list \<Rightarrow> ('w, row list) action" where
  "reselect D [] results st = (Inr results, st)"
| "reselect D (element # others) results st =
     (case driverExecuteQuery D element False st of
        (Inl e, st') \<Rightarrow> (Inl e, st')
      | (Inr (data, n), st') \<Rightarrow>
          reselect D others (case item0 data of Some r \<Rightarrow> results @ [r] | None \<Rightarrow> results) st')"

text \<open>
  \<^verbatim>\<open>
  async applyChanges(changes) {
    const results = []
    let sql = ['SET XACT_ABORT ON', 'BEGIN TRANSACTION']
    try {
      ...
      await this.driverExecuteQuery({ query: sql.join(';')})
      if (changes.updates) {
        const selectQueries = buildSelectQueriesFromUpdates(this.knex, changes.updates)
        for (...) { ... }
      }
    } catch (ex) {
      log.error("query exception: ", ex)
      throw ex
    }
    return results
  }
  \<close>
\<close>

definition applyChanges ::
  "'w driver \<Rightarrow> ('i, 'u, 'd) builders \<Rightarrow> ('i, 'u, 'd) changes \<Rightarrow> ('w, row list) action" where
  "applyChanges D B ch st =
     (case driverExecuteQuery D (QObj (join '';'' (change_statements B ch))) False st of
        (Inl ex, st') \<Rightarrow> (Inl ex, st')
      | (Inr r, st') \<Rightarrow>
          (case updates ch of
             None \<Rightarrow> (Inr [], st')
           | Some us \<Rightarrow> reselect D (buildSelectQueriesFromUpdates B us) [] st'))"

text \<open>The envelope every change set is sent in, for any statements in between.\<close>

definition envelope :: "string list \<Rightarrow> string" where
  "envelope body = join '';'' ([''SET XACT_ABORT ON'', ''BEGIN TRANSACTION''] @ body @ [''COMMIT''])"

text \<open>
  What the atomicity flag means for the server: a request in this envelope that fails
  leaves the world as it was.
\<close>

definition xact_abort_rolls_back :: "'w driver \<Rightarrow> bool" where
  "xact_abort_rolls_back D =
     (\<forall>body arrayRowMode w e w'.
        request_query D (Some (envelope body)) arrayRowMode w = (Inl e, w') \<longrightarrow> w' = w)"

section \<open>Index introspection\<close>

text \<open>
  A row of the catalog join in \<^verbatim>\<open>listTableIndexes\<close>, typed by its select list (the
  table and schema names, which the method does not read, are left out).
\<close>

record index_row =
  index_name :: string
  index_id :: int
  column_id :: int
  column_name :: string
  is_descending :: bool
  is_unique :: bool
  is_primary :: bool

record index_column =
  ic_name :: string
  ic_order :: string

record table_index =
  ti_table :: string
  ti_schema :: string
  ti_id :: int
  ti_name :: string
  ti_unique :: bool
  ti_primary :: bool
  ti_columns :: "index_column list"

text \<open>
  \<^verbatim>\<open>Object.keys\<close> of the object \<^verbatim>\<open>_.groupBy\<close> builds: keys that are array indices
  (canonical decimal numbers below \<open>2^32 - 1\<close>) come first in ascending order, the others
  follow in the order of their first occurrence.
\<close>

definition first_occurrences :: "'a list \<Rightarrow> 'a list" where
  "first_occurrences xs = rev (remdups (rev xs))"

definition is_array_index :: "string \<Rightarrow> bool" where
  "is_array_index s =
     (s \<noteq> [] \<and> list_all is_digit s \<and> (s = ''0'' \<or> hd s \<noteq> CHR ''0'') \<and> toNumber s < 4294967295)"

definition own_keys :: "string list \<Rightarrow> string list" where
  "own_keys ks =
     sort_key toNumber (filter is_array_index ks) @ filter (\<lambda>k. \<not> is_array_index k) ks"

definition groupBy :: "('a \<Rightarrow> string) \<Rightarrow> 'a list \<Rightarrow> (string \<times> 'a list) list" where
  "groupBy f xs =
     map (\<lambda>k. (k, filter (\<lambda>x. f x = k) xs)) (own_keys (first_occurrences (map f xs)))"

text \<open>
  \<^verbatim>\<open>
  const grouped = _.groupBy(data.recordset, 'index_name')
  const result = Object.keys(grouped).map((indexName) => {
    const blob = grouped[indexName]
    const unique = blob[0].is_unique
    const id = blob[0].index_id
    const primary = blob[0].is_primary
    const columns = _.sortBy(blob, 'column_id').map((column) => {
      return { name: column.column_name, order: column.is_descending ? 'DESC' : 'ASC' }
    })
    return { table, schema, id, name: indexName, unique, primary, columns }
  })
  return _.sortBy(result, 'id') as TableIndex[]
  \<close>
  \<^verbatim>\<open>_.sortBy\<close> is a stable ascending sort, as \<open>sort_key\<close> is. A group is never empty.
\<close>

definition index_column_of :: "index_row \<Rightarrow> index_column" where
  "index_column_of column =
     \<lparr> ic_name = column_name column,
       ic_order = (if is_descending column then ''DESC'' else ''ASC'') \<rparr>"

definition index_of_group :: "string \<Rightarrow> string \<Rightarrow> string \<times> index_row list \<Rightarrow> table_index" where
  "index_of_group table schema g =
     (let indexName = fst g; blob = snd g in
      \<lparr> ti_table = table, ti_schema = schema, ti_id = index_id (hd blob), ti_name = indexName,
        ti_unique = is_unique (hd blob), ti_primary = is_primary (hd blob),
        ti_columns = map index_column_of (sort_key column_id blob) \<rparr>)"

definition listTableIndexes :: "string \<Rightarrow> string \<Rightarrow> index_row list \<Rightarrow> table_index list" where
  "listTableIndexes table schema recordset' =
     sort_key ti_id (map (index_of_group table schema) (groupBy index_name recordset'))"

section \<open>The server's answer to the version query\<close>

text \<open>
  What the server said: the value under the key \<^verbatim>\<open>version\<close> in the first row of the
  first result set of the driver's answer, \<^verbatim>\<open>undefined\<close> when there is no such result set,
  row or key.
\<close>

definition banner_of :: "driver_data \<Rightarrow> jsval" where
  "banner_of data =
     (case recordsets data of
        [] \<Rightarrow> JUndefined
      | rs # others \<Rightarrow>
          (case rs_rows rs of
             [] \<Rightarrow> JUndefined
           | ArrRow vs # more_rows \<Rightarrow> JUndefined
           | ObjRow obj # more_rows \<Rightarrow>
               (case map_of obj ''version'' of None \<Rightarrow> JUndefined | Some v \<Rightarrow> v)))"

section \<open>Example drivers and clients\<close>

text \<open>
  A server on which every request succeeds with no result set and three affected rows,
  and a client that has not connected yet.
\<close>

definition update_driver :: "unit driver" where
  "update_driver =
     \<lparr> pool_connect = (\<lambda>w. (None, w)),
       request_query = (\<lambda>q arr w.
          (Inr \<lparr> recordsets = [], recordset = None, rowsAffected = [2, 1], item0 = None \<rparr>, w)),
       identify = (\<lambda>q. Some [''UPDATE'']) \<rparr>"

definition fresh_client :: "unit client" where
  "fresh_client = \<lparr> version = None, connection = False, world = (), sent = [] \<rparr>"

text \<open>
  A server of the 2008 release: the version query returns its banner, every other
  request an empty result set.
\<close>

definition version_rows :: result_set where
  "version_rows =
     \<lparr> rs_rows = [ObjRow [(''version'', JStr ''Microsoft SQL Server 2008 R2 (SP3)'')]],
       rs_columns = None \<rparr>"

definition empty_rows :: result_set where
  "empty_rows = \<lparr> rs_rows = [], rs_columns = None \<rparr>"

definition legacy_driver :: "unit driver" where
  "legacy_driver =
     \<lparr> pool_connect = (\<lambda>w. (None, w)),
       request_query = (\<lambda>q arr w.
          if q = Some version_query
          then (Inr \<lparr> recordsets = [version_rows], recordset = Some version_rows,
                      rowsAffected = [1], item0 = None \<rparr>, w)
          else (Inr \<lparr> recordsets = [empty_rows], recordset = Some empty_rows,
                      rowsAffected = [0], item0 = None \<rparr>, w)),
       identify = (\<lambda>q. Some [''SELECT'']) \<rparr>"

definition plain_helpers :: helpers where
  "plain_helpers =
     \<lparr> escapeString = (\<lambda>v quoted. to_string v),
       joinFilters = (\<lambda>entries items. join '' AND '' entries) \<rparr>"

text \<open>
  A server of the 2019 release: the version query returns its banner, every other request
  two rows of a table of people.
\<close>

definition people_rows :: result_set where
  "people_rows =
     \<lparr> rs_rows = [ObjRow [(''id'', JNum 1), (''name'', JStr ''Ada'')],
                  ObjRow [(''id'', JNum 2), (''name'', JStr ''Alan'')]],
       rs_columns = None \<rparr>"

definition modern_rows :: result_set where
  "modern_rows =
     \<lparr> rs_rows = [ObjRow [(''version'', JStr ''Microsoft SQL Server 2019 (RTM)'')]],
       rs_columns = None \<rparr>"

definition people_driver :: "unit driver" where
  "people_driver =
     \<lparr> pool_connect = (\<lambda>w. (None, w)),
       request_query = (\<lambda>q arr w.
          if q = Some version_query
          then (Inr \<lparr> recordsets = [modern_rows], recordset = Some modern_rows,
                      rowsAffected = [1], item0 = None \<rparr>, w)
          else (Inr \<lparr> recordsets = [people_rows], recordset = Some people_rows,
                      rowsAffected = [2], item0 = None \<rparr>, w)),
       identify = (\<lambda>q. Some [''SELECT'']) \<rparr>"

text \<open>The driver can be reached: the pool is open already, or opening it succeeds.\<close>

definition reachable :: "'w driver \<Rightarrow> 'w client \<Rightarrow> bool" where
  "reachable D st = (connection st \<or> fst (pool_connect D (world st)) = None)"

text \<open>
  A server whose world is the number of requests it has carried out; it rejects one
  update (a constraint violation) and leaves the world alone then.
\<close>

definition strict_driver :: "nat driver" where
  "strict_driver =
     \<lparr> pool_connect = (\<lambda>w. (None, w)),
       request_query = (\<lambda>q arr w.
          if q = Some (envelope [''UPDATE t SET name = NULL WHERE id = 1''])
          then (Inl (DriverError ''Cannot insert the value NULL into column name''), w)
          else (Inr \<lparr> recordsets = [], recordset = None, rowsAffected = [1], item0 = None \<rparr>,
                Suc w)),
       identify = (\<lambda>q. None) \<rparr>"

definition connected_client :: "nat client" where
  "connected_client = \<lparr> version = None, connection = True, world = 7, sent = [] \<rparr>"

definition text_builders :: "(string, string, string) builders" where
  "text_builders =
     \<lparr> buildInsertQueries = map (\<lambda>x. ''INSERT INTO t VALUES ('' @ x @ '')''),
       buildUpdateQueries = map (\<lambda>x. ''UPDATE t SET '' @ x),
       buildDeleteQueries = map (\<lambda>x. ''DELETE FROM t WHERE '' @ x),
       buildSelectQueriesFromUpdates = map (\<lambda>x. QObj ''SELECT * FROM t WHERE id = 1'') \<rparr>"

definition null_update :: "(string, string, string) changes" where
  "null_update =
     \<lparr> inserts = None, updates = Some [''name = NULL WHERE id = 1''], deletes = None \<rparr>"

text \<open>Catalog rows of a table with a primary key and a composite unique index.\<close>

definition row_of ::
  "string \<Rightarrow> int \<Rightarrow> int \<Rightarrow> string \<Rightarrow> bool \<Rightarrow> bool \<Rightarrow> bool \<Rightarrow> index_row" where
  "row_of n i c cn dsc u p =
     \<lparr> index_name = n, index_id = i, column_id = c, column_name = cn, is_descending = dsc,
       is_unique = u, is_primary = p \<rparr>"

definition catalog_rows :: "index_row list" where
  "catalog_rows =
     [row_of ''by_name'' 2 2 ''last'' True True False,
      row_of ''by_name'' 2 1 ''first'' False True False,
      row_of ''pk'' 1 1 ''id'' False True True]"

section \<open>Properties of the string functions\<close>

lemma replace_all_same: "replace_all c [c] s = s"
  by (induction s) auto

lemma wrapIdentifier_string:
  "wrapIdentifier (JStr s) = JStr (if s = ''*'' then ''*'' else ''['' @ s @ '']'')"
  by (simp add: replace_all_same)

lemma year_match_here_Some:
  "year_match_here s = Some d \<Longrightarrow> has_year_pattern s"
proof -
  assume a: "year_match_here s = Some d"
  then have t: "take 11 s = ''SQL Server ''" and dd: "takeWhile is_digit (drop 11 s) \<noteq> []"
    by (auto simp: year_match_here_def Let_def split: if_splits)
  from dd obtain x r where dr: "drop 11 s = x # r" and x: "is_digit x"
    by (cases "drop 11 s") (auto split: if_splits)
  have "s = take 11 s @ drop 11 s" by simp
  with t dr have "s = [] @ ''SQL Server '' @ x # r" by simp
  with x show ?thesis unfolding has_year_pattern_def by blast
qed

lemma year_match_here_None:
  "year_match_here (''SQL Server '' @ d # r) = None \<Longrightarrow> \<not> is_digit d"
  by (auto simp: year_match_here_def Let_def split: if_splits)

lemma has_year_pattern_Cons:
  "has_year_pattern (c # cs) \<Longrightarrow> year_match_here (c # cs) = None \<Longrightarrow> has_year_pattern cs"
proof -
  assume h: "has_year_pattern (c # cs)" and n: "year_match_here (c # cs) = None"
  from h obtain p d r where eq: "c # cs = p @ ''SQL Server '' @ d # r" and dg: "is_digit d"
    unfolding has_year_pattern_def by blast
  show ?thesis
  proof (cases p)
    case Nil
    with eq n have "year_match_here (''SQL Server '' @ d # r) = None" by simp
    with dg year_match_here_None show ?thesis by blast
  next
    case (Cons a p')
    with eq have "cs = p' @ ''SQL Server '' @ d # r" by simp
    with dg show ?thesis unfolding has_year_pattern_def by blast
  qed
qed

lemma has_year_pattern_tail: "has_year_pattern cs \<Longrightarrow> has_year_pattern (c # cs)"
proof -
  assume "has_year_pattern cs"
  then obtain p d r where "cs = p @ ''SQL Server '' @ d # r" and dg: "is_digit d"
    unfolding has_year_pattern_def by blast
  then have "c # cs = (c # p) @ ''SQL Server '' @ d # r" by simp
  with dg show ?thesis unfolding has_year_pattern_def by blast
qed

lemma yearRegex_exec_None_iff: "yearRegex_exec s = None \<longleftrightarrow> \<not> has_year_pattern s"
proof (induction s)
  case Nil
  show ?case by (simp add: has_year_pattern_def)
next
  case (Cons c cs)
  show ?case
  proof (cases "year_match_here (c # cs)")
    case None
    with Cons show ?thesis
      using has_year_pattern_Cons [of c cs] has_year_pattern_tail [of cs c] by auto
  next
    case (Some d)
    with year_match_here_Some [of "c # cs" d] show ?thesis by simp
  qed
qed

lemma versionFromString_no_pattern:
  "\<not> has_year_pattern (to_string vs) \<Longrightarrow>
     releaseYear (versionFromString vs) = 2017 \<and> supportOffsetFetch (versionFromString vs)"
  using yearRegex_exec_None_iff [of "to_string vs"] by (simp add: versionFromString_def)

lemma versionFromString_offset_iff:
  "supportOffsetFetch (versionFromString vs) \<longleftrightarrow> releaseYear (versionFromString vs) \<ge> 2012"
  by (simp add: versionFromString_def Let_def)

lemma versionFromString_versionString: "versionString (versionFromString vs) = vs"
  by (simp add: versionFromString_def Let_def)

section \<open>Identifier wrapping: the closing bracket\<close>

text \<open>
  C1. \<^verbatim>\<open>wrapIdentifier\<close> should render an embedded closing bracket safely (escaped or
  rejected). The replacement it performs maps \<^verbatim>\<open>[\<close> to \<^verbatim>\<open>[\<close>, so nothing is escaped:
  the identifier \<^verbatim>\<open>a]b\<close> comes back as \<^verbatim>\<open>[a]b]\<close>, whose first closing bracket ends
  the bracketed form early.
\<close>

theorem wrapIdentifier_closing_bracket_unescaped:
  "wrapIdentifier (JStr ''a]b'') = JStr ''[a]b]''"
  by simp

section \<open>Running requests\<close>

lemma driverExecuteQuery_update_driver:
  "driverExecuteQuery update_driver (QObj q) arr fresh_client =
     (Inr (\<lparr> recordsets = [], recordset = None, rowsAffected = [2, 1], item0 = None \<rparr>, 3),
      \<lparr> version = None, connection = True, world = (), sent = [Some q] \<rparr>)"
  by (simp add: driverExecuteQuery_def runWithConnection_def runQuery_def update_driver_def
      fresh_client_def)

section \<open>The version probe\<close>

lemma no_pattern_undefined: "\<not> has_year_pattern ''undefined''"
proof -
  have "yearRegex_exec ''undefined'' = None"
    by (simp add: year_match_here_def)
  then show ?thesis using yearRegex_exec_None_iff by blast
qed

lemma literal_no_digit: "k < 11 \<Longrightarrow> \<not> is_digit (''SQL Server '' ! k)"
proof -
  have "list_all (\<lambda>c. \<not> is_digit c) ''SQL Server ''"
    by (simp add: is_digit_def)
  then show "k < 11 \<Longrightarrow> \<not> is_digit (''SQL Server '' ! k)"
    by (simp add: list_all_length)
qed

lemma year_match_here_inside:
  assumes m: "year_match_here (p @ ''SQL Server '' @ X) = Some d" and p: "p \<noteq> []"
  shows "has_year_pattern p"
proof -
  define s where "s = p @ ''SQL Server '' @ X"
  from m have t: "take 11 s = ''SQL Server ''" and dd: "takeWhile is_digit (drop 11 s) \<noteq> []"
    unfolding s_def by (auto simp: year_match_here_def Let_def split: if_splits)
  from dd obtain x r where dr: "drop 11 s = x # r" and x: "is_digit x"
    by (cases "drop 11 s") (auto split: if_splits)
  from dr have "drop 11 s \<noteq> []" by simp
  then have len: "11 < length s" by (simp only: drop_eq_Nil not_le)
  from hd_drop_conv_nth [OF len] dr have nth: "s ! 11 = x" by simp
  show ?thesis
  proof (cases "11 < length p")
    case True
    then have "take 11 p = take 11 s" unfolding s_def by simp
    with t have tp: "take 11 p = ''SQL Server ''" by simp
    from True nth have "p ! 11 = x" unfolding s_def by (simp add: nth_append)
    with Cons_nth_drop_Suc [OF True] have "drop 11 p = x # drop 12 p" by simp
    moreover have "p = take 11 p @ drop 11 p" by simp
    ultimately have "p = take 11 p @ x # drop 12 p" by simp
    with tp have "p = [] @ ''SQL Server '' @ x # drop 12 p" by simp
    with x show ?thesis unfolding has_year_pattern_def by blast
  next
    case False
    from p have "0 < length p" by simp
    with False have k: "11 - length p < 11" by arith
    have l11: "length ''SQL Server '' = 11" by simp
    from False have "s ! 11 = (''SQL Server '' @ X) ! (11 - length p)"
      unfolding s_def by (simp only: nth_append if_False)
    also from k l11 have "\<dots> = ''SQL Server '' ! (11 - length p)"
      by (simp only: nth_append if_True)
    finally have "x = ''SQL Server '' ! (11 - length p)" using nth by simp
    with x literal_no_digit [OF k] show ?thesis by simp
  qed
qed

lemma takeWhile_digits:
  "list_all is_digit ds \<Longrightarrow> r = [] \<or> \<not> is_digit (hd r) \<Longrightarrow> takeWhile is_digit (ds @ r) = ds"
proof (induction ds)
  case Nil
  then show ?case by (cases r) auto
next
  case (Cons a ds)
  then show ?case by simp
qed

lemma yearRegex_exec_leftmost:
  assumes "\<not> has_year_pattern p" and "ds \<noteq> []" and "list_all is_digit ds"
      and "r = [] \<or> \<not> is_digit (hd r)"
  shows "yearRegex_exec (p @ ''SQL Server '' @ ds @ r) = Some ds"
  using assms(1)
proof (induction p)
  case Nil
  have "year_match_here (''SQL Server '' @ ds @ r) = Some ds"
    using takeWhile_digits [OF assms(3) assms(4)] assms(2)
    by (simp add: year_match_here_def Let_def)
  then show ?case by simp
next
  case (Cons c p)
  have np: "\<not> has_year_pattern p"
    using Cons.prems has_year_pattern_tail by blast
  have "year_match_here ((c # p) @ ''SQL Server '' @ ds @ r) = None"
  proof (cases "year_match_here ((c # p) @ ''SQL Server '' @ ds @ r)")
    case None
    then show ?thesis .
  next
    case (Some d)
    from year_match_here_inside [OF Some] Cons.prems show ?thesis by simp
  qed
  then have "yearRegex_exec ((c # p) @ ''SQL Server '' @ ds @ r) =
             yearRegex_exec (p @ ''SQL Server '' @ ds @ r)"
    by simp
  with Cons.IH [OF np] show ?case by simp
qed

lemma digit_value_char: "n < 10 \<Longrightarrow> digit_value (digit_char n) = int n"
proof -
  have "\<forall>n < 10. digit_value (digit_char n) = int n"
    by (simp add: digit_value_def digit_char_def All_less_Suc numeral_eq_Suc)
  then show "n < 10 \<Longrightarrow> digit_value (digit_char n) = int n" by blast
qed

lemma is_digit_char: "n < 10 \<Longrightarrow> is_digit (digit_char n)"
proof -
  have "\<forall>n < 10. is_digit (digit_char n)"
    by (simp add: is_digit_def digit_char_def All_less_Suc numeral_eq_Suc)
  then show "n < 10 \<Longrightarrow> is_digit (digit_char n)" by blast
qed

lemma toNumber_snoc: "toNumber (ds @ [c]) = 10 * toNumber ds + digit_value c"
  by (simp add: toNumber_def)

lemma toNumber_string_of_nat: "toNumber (string_of_nat n) = int n"
proof (induction n rule: string_of_nat.induct)
  case (1 n)
  show ?case
  proof (cases "n < 10")
    case True
    then show ?thesis
      by (subst string_of_nat.simps) (simp add: toNumber_def digit_value_char del: string_of_nat.simps)
  next
    case False
    then have "toNumber (string_of_nat n) =
               10 * toNumber (string_of_nat (n div 10)) + digit_value (digit_char (n mod 10))"
      by (subst string_of_nat.simps) (simp add: toNumber_snoc del: string_of_nat.simps)
    moreover have "10 * int (n div 10) + int (n mod 10) = int n" by presburger
    ultimately show ?thesis using 1 False by (simp add: digit_value_char del: string_of_nat.simps)
  qed
qed

lemma digits_string_of_nat: "list_all is_digit (string_of_nat n)"
proof (induction n rule: string_of_nat.induct)
  case (1 n)
  show ?case
  proof (cases "n < 10")
    case True
    then show ?thesis by (subst string_of_nat.simps) (simp add: is_digit_char del: string_of_nat.simps)
  next
    case False
    with 1 show ?thesis by (subst string_of_nat.simps) (simp add: is_digit_char del: string_of_nat.simps)
  qed
qed

lemma string_of_nat_nonempty: "string_of_nat n \<noteq> []"
  by (subst string_of_nat.simps) (simp del: string_of_nat.simps)

lemma toNumber_zeros: "toNumber (replicate k CHR ''0'' @ ds) = toNumber ds"
proof -
  have z: "digit_value CHR ''0'' = 0" by (simp add: digit_value_def)
  have "foldl (\<lambda>a c. 10 * a + digit_value c) 0 (replicate k CHR ''0'') = 0"
    by (induction k) (simp_all add: z)
  then show ?thesis by (simp add: toNumber_def)
qed

lemma zeros_digits: "list_all is_digit (replicate k CHR ''0'')"
  by (induction k) (simp_all add: is_digit_def)

lemma versionFromString_year:
  assumes "to_string vs = p @ ''SQL Server '' @ replicate k CHR ''0'' @ string_of_nat y @ r"
      and "\<not> has_year_pattern p" and "r = [] \<or> \<not> is_digit (hd r)"
  shows "releaseYear (versionFromString vs) = (if y = 0 then 2017 else int y)"
proof -
  let ?ds = "replicate k CHR ''0'' @ string_of_nat y"
  have ne: "?ds \<noteq> []" using string_of_nat_nonempty by (simp del: string_of_nat.simps)
  have dg: "list_all is_digit ?ds" using zeros_digits digits_string_of_nat by (simp del: string_of_nat.simps)
  from yearRegex_exec_leftmost [OF assms(2) ne dg assms(3)] assms(1)
  have "yearRegex_exec (to_string vs) = Some ?ds" by (simp del: string_of_nat.simps)
  moreover have "toNumber ?ds = int y"
    by (simp add: toNumber_zeros toNumber_string_of_nat del: string_of_nat.simps)
  ultimately show ?thesis by (simp add: versionFromString_def Let_def del: string_of_nat.simps)
qed

lemma getVersion_banner:
  assumes "driverExecuteQuery D (QObj version_query) False st = (Inr (data, n), st')"
  shows "getVersion D st = (Inr (versionFromString (banner_of data)), st')"
proof -
  have "versionStringOf
          (map (\<lambda>(idx, result). parseRowQueryResult (rs_rows result) n
                  (nth_opt (identifyCommands D version_query) idx) (rs_columns result) False)
               (enumerate 0 rss)) =
        (case rss of
           [] \<Rightarrow> JUndefined
         | rs # others \<Rightarrow>
             (case rs_rows rs of
                [] \<Rightarrow> JUndefined
              | ArrRow vs # more_rows \<Rightarrow> JUndefined
              | ObjRow obj # more_rows \<Rightarrow>
                  (case map_of obj ''version'' of None \<Rightarrow> JUndefined | Some v \<Rightarrow> v)))" for rss
    by (auto simp: versionStringOf_def first_def parseRowQueryResult_def Let_def
        split: list.splits row.splits option.splits)
  note vs = this
  show ?thesis
  proof (cases "recordsets data = [] \<and> n > 0")
    case True
    then show ?thesis
      using assms vs [of "[placeholder]"]
      by (simp add: getVersion_def executeQuery_def banner_of_def placeholder_def Let_def)
  next
    case False
    then show ?thesis
      using assms vs [of "recordsets data"]
      by (auto simp: getVersion_def executeQuery_def banner_of_def Let_def)
  qed
qed

lemma no_pattern_microsoft: "\<not> has_year_pattern ''Microsoft ''"
proof -
  have "yearRegex_exec ''Microsoft '' = None"
    by (simp add: year_match_here_def)
  then show ?thesis using yearRegex_exec_None_iff by blast
qed

lemma driverExecuteQuery_people_version:
  "driverExecuteQuery people_driver (QObj version_query) False fresh_client =
     (Inr (\<lparr> recordsets = [modern_rows], recordset = Some modern_rows,
              rowsAffected = [1], item0 = None \<rparr>, 1),
      \<lparr> version = None, connection = True, world = (), sent = [Some version_query] \<rparr>)"
  by (simp add: driverExecuteQuery_def runWithConnection_def runQuery_def people_driver_def
      fresh_client_def)

lemma driverExecuteQuery_legacy_version:
  "driverExecuteQuery legacy_driver (QObj version_query) False fresh_client =
     (Inr (\<lparr> recordsets = [version_rows], recordset = Some version_rows,
              rowsAffected = [1], item0 = None \<rparr>, 1),
      \<lparr> version = None, connection = True, world = (), sent = [Some version_query] \<rparr>)"
  by (simp add: driverExecuteQuery_def runWithConnection_def runQuery_def legacy_driver_def
      fresh_client_def)

text \<open>
  C9. Whenever the version query is answered, \<^verbatim>\<open>getVersion\<close> returns the server's
  answer as the version string. If the pattern "SQL Server <digits>" does not occur in it
  (a missing answer reads as \<^verbatim>\<open>undefined\<close>), the release year is 2017 and offset/fetch
  is supported. If it occurs, the release year is the number written by the digits of the
  leftmost occurrence (2017 when that number is 0). In every case offset/fetch is
  supported exactly when the release year is at least 2012.
\<close>

theorem getVersion_default_year:
  assumes "driverExecuteQuery D (QObj version_query) False st = (Inr (data, n), st')"
  shows "\<exists>v. getVersion D st = (Inr v, st') \<and>
           versionString v = banner_of data \<and>
           (\<not> has_year_pattern (to_string (banner_of data)) \<longrightarrow>
              releaseYear v = 2017 \<and> supportOffsetFetch v) \<and>
           (\<forall>p k y r.
              to_string (banner_of data) =
                p @ ''SQL Server '' @ replicate k CHR ''0'' @ string_of_nat y @ r \<and>
              \<not> has_year_pattern p \<and> (r = [] \<or> \<not> is_digit (hd r)) \<longrightarrow>
              releaseYear v = (if y = 0 then 2017 else int y)) \<and>
           (supportOffsetFetch v \<longleftrightarrow> 2012 \<le> releaseYear v)"
proof -
  let ?v = "versionFromString (banner_of data)"
  have g: "getVersion D st = (Inr ?v, st')" using assms by (rule getVersion_banner)
  have a: "versionString ?v = banner_of data" by (rule versionFromString_versionString)
  have b: "\<not> has_year_pattern (to_string (banner_of data)) \<longrightarrow>
              releaseYear ?v = 2017 \<and> supportOffsetFetch ?v"
    using versionFromString_no_pattern by blast
  have c: "\<forall>p k y r.
              to_string (banner_of data) =
                p @ ''SQL Server '' @ replicate k CHR ''0'' @ string_of_nat y @ r \<and>
              \<not> has_year_pattern p \<and> (r = [] \<or> \<not> is_digit (hd r)) \<longrightarrow>
              releaseYear ?v = (if y = 0 then 2017 else int y)"
    using versionFromString_year by blast
  have d: "supportOffsetFetch ?v \<longleftrightarrow> 2012 \<le> releaseYear ?v"
    by (rule versionFromString_offset_iff)
  from g a b c d show ?thesis by blast
qed

theorem getVersion_default_year_witness:
  "(\<exists>v. getVersion people_driver fresh_client =
          (Inr v, \<lparr> version = None, connection = True, world = (),
                     sent = [Some version_query] \<rparr>) \<and>
        versionString v = JStr ''Microsoft SQL Server 2019 (RTM)'' \<and>
        releaseYear v = 2019 \<and> supportOffsetFetch v) \<and>
   (\<exists>v. getVersion legacy_driver fresh_client =
          (Inr v, \<lparr> version = None, connection = True, world = (),
                     sent = [Some version_query] \<rparr>) \<and>
        versionString v = JStr ''Microsoft SQL Server 2008 R2 (SP3)'' \<and>
        releaseYear v = 2008 \<and> \<not> supportOffsetFetch v) \<and>
   (\<exists>v. getVersion update_driver fresh_client =
          (Inr v, \<lparr> version = None, connection = True, world = (),
                     sent = [Some version_query] \<rparr>) \<and>
        versionString v = JUndefined \<and> releaseYear v = 2017 \<and> supportOffsetFetch v)"
proof -
  have s19: "string_of_nat 2019 = ''2019''" by (simp add: digit_char_def)
  have s08: "string_of_nat 2008 = ''2008''" by (simp add: digit_char_def)
  have b19: "banner_of \<lparr> recordsets = [modern_rows], recordset = Some modern_rows,
              rowsAffected = [1], item0 = None \<rparr> = JStr ''Microsoft SQL Server 2019 (RTM)''"
    by (simp add: banner_of_def modern_rows_def)
  have b08: "banner_of \<lparr> recordsets = [version_rows], recordset = Some version_rows,
              rowsAffected = [1], item0 = None \<rparr> = JStr ''Microsoft SQL Server 2008 R2 (SP3)''"
    by (simp add: banner_of_def version_rows_def)
  have bu: "banner_of \<lparr> recordsets = [], recordset = None, rowsAffected = [2, 1],
              item0 = None \<rparr> = JUndefined"
    by (simp add: banner_of_def)
  obtain v where v:
    "getVersion people_driver fresh_client =
       (Inr v, \<lparr> version = None, connection = True, world = (), sent = [Some version_query] \<rparr>)"
    "versionString v = JStr ''Microsoft SQL Server 2019 (RTM)''"
    "\<forall>p k y r. ''Microsoft SQL Server 2019 (RTM)'' =
          p @ ''SQL Server '' @ replicate k CHR ''0'' @ string_of_nat y @ r \<and>
          \<not> has_year_pattern p \<and> (r = [] \<or> \<not> is_digit (hd r)) \<longrightarrow>
          releaseYear v = (if y = 0 then 2017 else int y)"
    "supportOffsetFetch v \<longleftrightarrow> 2012 \<le> releaseYear v"
    using getVersion_default_year [OF driverExecuteQuery_people_version]
    unfolding b19 to_string.simps by blast
  from v(3) have "''Microsoft SQL Server 2019 (RTM)'' =
          ''Microsoft '' @ ''SQL Server '' @ replicate 0 CHR ''0'' @ string_of_nat 2019 @ '' (RTM)'' \<and>
          \<not> has_year_pattern ''Microsoft '' \<and>
          ('' (RTM)'' = [] \<or> \<not> is_digit (hd '' (RTM)'')) \<longrightarrow>
          releaseYear v = (if (2019::nat) = 0 then 2017 else int 2019)"
    by blast
  then have y19: "releaseYear v = 2019"
    using no_pattern_microsoft by (simp add: s19 is_digit_def del: string_of_nat.simps)
  with v have A: "\<exists>v. getVersion people_driver fresh_client =
          (Inr v, \<lparr> version = None, connection = True, world = (),
                     sent = [Some version_query] \<rparr>) \<and>
        versionString v = JStr ''Microsoft SQL Server 2019 (RTM)'' \<and>
        releaseYear v = 2019 \<and> supportOffsetFetch v"
    by auto
  obtain u where u:
    "getVersion legacy_driver fresh_client =
       (Inr u, \<lparr> version = None, connection = True, world = (), sent = [Some version_query] \<rparr>)"
    "versionString u = JStr ''Microsoft SQL Server 2008 R2 (SP3)''"
    "\<forall>p k y r. ''Microsoft SQL Server 2008 R2 (SP3)'' =
          p @ ''SQL Server '' @ replicate k CHR ''0'' @ string_of_nat y @ r \<and>
          \<not> has_year_pattern p \<and> (r = [] \<or> \<not> is_digit (hd r)) \<longrightarrow>
          releaseYear u = (if y = 0 then 2017 else int y)"
    "supportOffsetFetch u \<longleftrightarrow> 2012 \<le> releaseYear u"
    using getVersion_default_year [OF driverExecuteQuery_legacy_version]
    unfolding b08 to_string.simps by blast
  from u(3) have "''Microsoft SQL Server 2008 R2 (SP3)'' =
          ''Microsoft '' @ ''SQL Server '' @ replicate 0 CHR ''0'' @ string_of_nat 2008 @ '' R2 (SP3)'' \<and>
          \<not> has_year_pattern ''Microsoft '' \<and>
          ('' R2 (SP3)'' = [] \<or> \<not> is_digit (hd '' R2 (SP3)'')) \<longrightarrow>
          releaseYear u = (if (2008::nat) = 0 then 2017 else int 2008)"
    by blast
  then have y08: "releaseYear u = 2008"
    using no_pattern_microsoft by (simp add: s08 is_digit_def del: string_of_nat.simps)
  with u have B: "\<exists>v. getVersion legacy_driver fresh_client =
          (Inr v, \<lparr> version = None, connection = True, world = (),
                     sent = [Some version_query] \<rparr>) \<and>
        versionString v = JStr ''Microsoft SQL Server 2008 R2 (SP3)'' \<and>
        releaseYear v = 2008 \<and> \<not> supportOffsetFetch v"
    by auto
  have C: "\<exists>v. getVersion update_driver fresh_client =
          (Inr v, \<lparr> version = None, connection = True, world = (),
                     sent = [Some version_query] \<rparr>) \<and>
        versionString v = JUndefined \<and> releaseYear v = 2017 \<and> supportOffsetFetch v"
    using getVersion_default_year [OF driverExecuteQuery_update_driver [of version_query False]]
      no_pattern_undefined
    unfolding bu by auto
  from A B C show ?thesis by blast
qed

section \<open>Result classification\<close>

text \<open>
  C6, as stated, fails: a result set with a row is labelled by the classifier's statement
  type when there is one, not as SELECT. Here one row comes back from a statement the
  classifier calls INSERT.
\<close>

theorem parseRowQueryResult_select_shaped_counterexample:
  "[ObjRow [(''id'', JNum 1)]] \<noteq> [] \<and>
   command (parseRowQueryResult [ObjRow [(''id'', JNum 1)]] 1 (Some ''INSERT'') None False)
     = Command ''INSERT'' \<and>
   command (parseRowQueryResult [ObjRow [(''id'', JNum 1)]] 1 (Some ''INSERT'') None False)
     \<noteq> Command ''SELECT''"
  by (simp add: parseRowQueryResult_def Let_def)

text \<open>
  C6, amended. The label is the classifier's statement type whenever it assigned one.
  SELECT is the fallback when it assigned none and the result set has a row, or has no row
  and the affected-row count is exactly zero; with no type, no row and a non-zero count the
  label is \<^verbatim>\<open>false\<close>.
\<close>

theorem parseRowQueryResult_command:
  "(\<forall>s. c = Some s \<and> s \<noteq> [] \<longrightarrow>
       command (parseRowQueryResult data n c cols arr) = Command s) \<and>
   ((c = None \<or> c = Some []) \<and> (data \<noteq> [] \<or> n = 0) \<longrightarrow>
       command (parseRowQueryResult data n c cols arr) = Command ''SELECT'') \<and>
   ((c = None \<or> c = Some []) \<and> data = [] \<and> n \<noteq> 0 \<longrightarrow>
       command (parseRowQueryResult data n c cols arr) = NoCommand)"
  by (auto simp: parseRowQueryResult_def Let_def)

theorem parseRowQueryResult_command_witness:
  "command (parseRowQueryResult [] 0 (Some ''UPDATE'') None False) = Command ''UPDATE'' \<and>
   command (parseRowQueryResult [] 0 None None False) = Command ''SELECT'' \<and>
   command (parseRowQueryResult [] 4 (Some []) None True) = NoCommand"
  using parseRowQueryResult_command [of "Some ''UPDATE''" "[]" 0 None False]
    parseRowQueryResult_command [of None "[]" 0 None False]
    parseRowQueryResult_command [of "Some []" "[]" 4 None True]
  by simp

section \<open>Results of a batch\<close>








section \<open>What reaches the driver\<close>

lemma driverExecuteQuery_sent:
  "\<exists>l. sent (snd (driverExecuteQuery D qa arr st)) = sent st @ l \<and> set l \<subseteq> {query_of qa}"
  by (auto simp: driverExecuteQuery_def runQuery_def runWithConnection_def Let_def
      split: prod.splits sum.splits option.splits)

lemma driverExecuteQuery_connected:
  "connection st \<Longrightarrow>
     sent (snd (driverExecuteQuery D qa arr st)) = sent st @ [query_of qa] \<and>
     connection (snd (driverExecuteQuery D qa arr st))"
  by (auto simp: driverExecuteQuery_def runQuery_def Let_def split: prod.splits sum.splits)

lemma driverExecuteQuery_Inr:
  "driverExecuteQuery D qa arr st = (Inr r, st') \<Longrightarrow>
     sent st' = sent st @ [query_of qa] \<and> connection st' \<and> version st' = version st"
  by (auto simp: driverExecuteQuery_def runQuery_def runWithConnection_def Let_def
      split: if_splits prod.splits sum.splits option.splits)

lemma executeQuery_snd:
  "snd (executeQuery D q arr st) = snd (driverExecuteQuery D (QObj q) arr st)"
  by (auto simp: executeQuery_def Let_def split: prod.splits sum.splits)

lemma executeQuery_Inr:
  "executeQuery D q arr st = (Inr rs, st') \<Longrightarrow>
     \<exists>r. driverExecuteQuery D (QObj q) arr st = (Inr r, st')"
  by (auto simp: executeQuery_def Let_def split: prod.splits sum.splits)

lemma getVersion_snd:
  "snd (getVersion D st) = snd (driverExecuteQuery D (QObj version_query) False st)"
  using executeQuery_snd [of D version_query False st]
  by (auto simp: getVersion_def split: prod.splits sum.splits)

lemma getVersion_Inr:
  "getVersion D st = (Inr v, st') \<Longrightarrow>
     sent st' = sent st @ [Some version_query] \<and> connection st' \<and> version st' = version st"
proof -
  assume "getVersion D st = (Inr v, st')"
  then obtain rs where "executeQuery D version_query False st = (Inr rs, st')"
    by (auto simp: getVersion_def split: prod.splits sum.splits)
  then obtain r where "driverExecuteQuery D (QObj version_query) False st = (Inr r, st')"
    using executeQuery_Inr by blast
  then show ?thesis using driverExecuteQuery_Inr by fastforce
qed

lemma selectTopSql_snd:
  "snd (selectTopSql D H t off lim ob f sch sel st) = snd (getVersion D st)"
  by (auto simp: selectTopSql_def split: prod.splits sum.splits)

lemma connect_Inr:
  "connect D st0 = (Inr u, st1) \<Longrightarrow>
     \<exists>v st'. getVersion D st0 = (Inr v, st') \<and> st1 = st'\<lparr>version := Some v\<rparr>"
  by (auto simp: connect_def split: prod.splits sum.splits)

lemma legacy_version:
  "versionFromString (JStr ''Microsoft SQL Server 2008 R2 (SP3)'') =
     \<lparr> supportOffsetFetch = False, releaseYear = 2008,
       versionString = JStr ''Microsoft SQL Server 2008 R2 (SP3)'' \<rparr>"
  by (simp add: versionFromString_def year_match_here_def toNumber_def digit_value_def
      is_digit_def Let_def)

lemma connect_legacy:
  "connect legacy_driver fresh_client =
     (Inr (), \<lparr> version = Some (versionFromString (JStr ''Microsoft SQL Server 2008 R2 (SP3)'')),
                connection = True, world = (), sent = [Some version_query] \<rparr>)"
  by (simp add: connect_def getVersion_def executeQuery_def
      driverExecuteQuery_def runWithConnection_def runQuery_def legacy_driver_def fresh_client_def
      version_rows_def identifyCommands_def parseRowQueryResult_def parseFields_def
      versionStringOf_def first_def Let_def)

lemma genSelectOld_not_version_query:
  "genSelectOld H t off lim ob f sch sel \<noteq> version_query"
  by (simp add: genSelectOld_def version_query_def Let_def)

lemma selectTopSql_legacy:
  "selectTopSql legacy_driver H t off lim ob f sch sel fresh_client =
     (Inr (genSelectOld H t off lim ob f sch sel),
      \<lparr> version = None, connection = True, world = (), sent = [Some version_query] \<rparr>)"
  by (simp add: selectTopSql_def getVersion_def executeQuery_def
      driverExecuteQuery_def runWithConnection_def runQuery_def legacy_driver_def fresh_client_def
      version_rows_def identifyCommands_def parseRowQueryResult_def parseFields_def
      versionStringOf_def first_def Let_def legacy_version)

lemma driverExecuteQuery_legacy_select:
  "driverExecuteQuery legacy_driver (QObj (genSelectOld H t off lim ob f sch sel)) False
      \<lparr> version = None, connection = True, world = (), sent = [Some version_query] \<rparr> =
     (Inr (\<lparr> recordsets = [empty_rows], recordset = Some empty_rows,
              rowsAffected = [0], item0 = None \<rparr>, 0),
      \<lparr> version = None, connection = True, world = (),
        sent = [Some version_query, Some (genSelectOld H t off lim ob f sch sel)] \<rparr>)"
  by (simp add: driverExecuteQuery_def runQuery_def legacy_driver_def genSelectOld_not_version_query)

section \<open>The version probe and pagination\<close>

text \<open>
  C2, as stated, fails: after \<^verbatim>\<open>connect\<close> has probed the version once, a call of
  \<^verbatim>\<open>selectTopSql\<close> sends the version query again.
\<close>

theorem version_probe_once_counterexample:
  "sent (snd (connect legacy_driver fresh_client)) = [Some version_query] \<and>
   sent (snd (selectTopSql legacy_driver plain_helpers ''t'' (Some 0) (Some 10) (Some []) NoFilters
                None [''*''] (snd (connect legacy_driver fresh_client))))
     = [Some version_query, Some version_query]"
  by (simp add: selectTopSql_snd getVersion_snd connect_def getVersion_def executeQuery_def
      driverExecuteQuery_def runWithConnection_def runQuery_def legacy_driver_def fresh_client_def
      Let_def split: prod.splits sum.splits)

text \<open>
  C2, amended. A successful \<^verbatim>\<open>connect\<close> sends the version query once and stores the
  answer on the client. \<^verbatim>\<open>selectTopSql\<close> does not read the stored answer: on a connected
  client every call sends one more version query, and the pagination strategy of a call
  that returns is the one of the version that call has just probed.
\<close>

theorem selectTopSql_probes_again:
  assumes "connect D st0 = (Inr (), st1)"
  shows "sent st1 = sent st0 @ [Some version_query] \<and> connection st1 \<and>
         (\<exists>v st'. getVersion D st0 = (Inr v, st') \<and> version st1 = Some v) \<and>
         (\<forall>st. connection st \<longrightarrow>
            sent (snd (selectTopSql D H t off lim ob f sch sel st)) =
              sent st @ [Some version_query]) \<and>
         (\<forall>st q st'. selectTopSql D H t off lim ob f sch sel st = (Inr q, st') \<longrightarrow>
            (\<exists>v. getVersion D st = (Inr v, st') \<and>
                 q = (if supportOffsetFetch v then genSelectNew H t off lim ob f sch sel
                      else genSelectOld H t off lim ob f sch sel)))"
proof -
  from assms obtain v st' where g: "getVersion D st0 = (Inr v, st')"
    and s1: "st1 = st'\<lparr>version := Some v\<rparr>"
    using connect_Inr by blast
  from getVersion_Inr [OF g] s1
  have a: "sent st1 = sent st0 @ [Some version_query] \<and> connection st1"
    by simp
  have b: "\<exists>v st'. getVersion D st0 = (Inr v, st') \<and> version st1 = Some v"
    using g s1 by simp
  have c: "\<forall>st. connection st \<longrightarrow>
            sent (snd (selectTopSql D H t off lim ob f sch sel st)) =
              sent st @ [Some version_query]"
    using driverExecuteQuery_connected [of _ D "QObj version_query" False]
    by (simp add: selectTopSql_snd getVersion_snd)
  have d: "\<forall>st q st'. selectTopSql D H t off lim ob f sch sel st = (Inr q, st') \<longrightarrow>
            (\<exists>v. getVersion D st = (Inr v, st') \<and>
                 q = (if supportOffsetFetch v then genSelectNew H t off lim ob f sch sel
                      else genSelectOld H t off lim ob f sch sel))"
    by (auto simp: selectTopSql_def split: prod.splits sum.splits)
  from a b c d show ?thesis by blast
qed

theorem selectTopSql_probes_again_witness:
  "connect legacy_driver fresh_client =
     (Inr (), \<lparr> version = Some (versionFromString (JStr ''Microsoft SQL Server 2008 R2 (SP3)'')),
                connection = True, world = (), sent = [Some version_query] \<rparr>) \<and>
   sent (snd (selectTopSql legacy_driver plain_helpers ''t'' (Some 0) (Some 10) (Some []) NoFilters
                None [''*'']
                \<lparr> version = Some (versionFromString (JStr ''Microsoft SQL Server 2008 R2 (SP3)'')),
                  connection = True, world = (), sent = [Some version_query] \<rparr>))
     = [Some version_query, Some version_query]"
  using selectTopSql_probes_again [OF connect_legacy, of plain_helpers "''t''" "Some 0" "Some 10"
      "Some []" NoFilters None "[''*'']"]
  by (simp add: connect_legacy)

lemma modern_version:
  "versionFromString (JStr ''Microsoft SQL Server 2019 (RTM)'') =
     \<lparr> supportOffsetFetch = True, releaseYear = 2019,
       versionString = JStr ''Microsoft SQL Server 2019 (RTM)'' \<rparr>"
  by (simp add: versionFromString_def year_match_here_def toNumber_def digit_value_def
      is_digit_def Let_def)

lemma genSelectNew_not_version_query:
  "genSelectNew H t off lim ob f sch sel \<noteq> version_query"
  by (simp add: genSelectNew_def version_query_def Let_def)

lemma selectTopSql_people:
  "selectTopSql people_driver H t off lim ob f sch sel fresh_client =
     (Inr (genSelectNew H t off lim ob f sch sel),
      \<lparr> version = None, connection = True, world = (), sent = [Some version_query] \<rparr>)"
  by (simp add: selectTopSql_def getVersion_def executeQuery_def
      driverExecuteQuery_def runWithConnection_def runQuery_def people_driver_def fresh_client_def
      modern_rows_def identifyCommands_def parseRowQueryResult_def parseFields_def
      versionStringOf_def first_def Let_def modern_version)

lemma driverExecuteQuery_people_page:
  "driverExecuteQuery people_driver (QObj (genSelectNew H t off lim ob f sch sel)) False
      \<lparr> version = None, connection = True, world = (), sent = [Some version_query] \<rparr> =
     (Inr (\<lparr> recordsets = [people_rows], recordset = Some people_rows,
              rowsAffected = [2], item0 = None \<rparr>, 2),
      \<lparr> version = None, connection = True, world = (),
        sent = [Some version_query, Some (genSelectNew H t off lim ob f sch sel)] \<rparr>)"
  by (simp add: driverExecuteQuery_def runQuery_def people_driver_def
      genSelectNew_not_version_query)

text \<open>
  C10. \<^verbatim>\<open>selectTop\<close> returns the rows of the record set and, as fields, the keys of its
  first row in their order (the column names of an object row); for an empty record set
  the fields are empty and no error is raised.
\<close>

theorem selectTop_fields_from_first_row:
  assumes "selectTopSql D H table offset limit orderBy f schema
             (case selects of None \<Rightarrow> [''*''] | Some xs \<Rightarrow> xs) st = (Inr query, st1)"
      and "driverExecuteQuery D (QObj query) False st1 = (Inr (data, n), st2)"
      and "recordset data = Some rs"
  shows "selectTop D H table offset limit orderBy f schema selects st =
           (Inr \<lparr> top_result = rs_rows rs,
                  top_fields = (case rs_rows rs of
                                  [] \<Rightarrow> []
                                | ObjRow obj # others \<Rightarrow> map fst obj
                                | ArrRow vs # others \<Rightarrow> map string_of_nat [0..<length vs]) \<rparr>,
            st2)"
  using assms by (simp add: selectTop_def first_def split: list.splits row.splits)

theorem selectTop_fields_from_first_row_witness:
  "selectTop legacy_driver plain_helpers ''t'' (Some 0) (Some 10) (Some []) NoFilters None None
       fresh_client =
     (Inr \<lparr> top_result = [], top_fields = [] \<rparr>,
      \<lparr> version = None, connection = True, world = (),
        sent = [Some version_query,
                Some (genSelectOld plain_helpers ''t'' (Some 0) (Some 10) (Some []) NoFilters None
                        [''*''])] \<rparr>) \<and>
   selectTop people_driver plain_helpers ''people'' (Some 0) (Some 10) (Some []) NoFilters None
       (Some [''id'', ''name'']) fresh_client =
     (Inr \<lparr> top_result = [ObjRow [(''id'', JNum 1), (''name'', JStr ''Ada'')],
                           ObjRow [(''id'', JNum 2), (''name'', JStr ''Alan'')]],
            top_fields = [''id'', ''name''] \<rparr>,
      \<lparr> version = None, connection = True, world = (),
        sent = [Some version_query,
                Some (genSelectNew plain_helpers ''people'' (Some 0) (Some 10) (Some []) NoFilters
                        None [''id'', ''name''])] \<rparr>)"
proof -
  have a: "selectTop legacy_driver plain_helpers ''t'' (Some 0) (Some 10) (Some []) NoFilters None
       None fresh_client =
     (Inr \<lparr> top_result = [], top_fields = [] \<rparr>,
      \<lparr> version = None, connection = True, world = (),
        sent = [Some version_query,
                Some (genSelectOld plain_helpers ''t'' (Some 0) (Some 10) (Some []) NoFilters None
                        [''*''])] \<rparr>)"
    using selectTop_fields_from_first_row [of legacy_driver plain_helpers "''t''" "Some 0" "Some 10"
        "Some []" NoFilters None None fresh_client _ _ _ _ _ empty_rows]
      selectTopSql_legacy [of plain_helpers "''t''" "Some 0" "Some 10" "Some []" NoFilters None
        "[''*'']"]
      driverExecuteQuery_legacy_select [of plain_helpers "''t''" "Some 0" "Some 10" "Some []"
        NoFilters None "[''*'']"]
    by (simp add: empty_rows_def)
  have b: "selectTop people_driver plain_helpers ''people'' (Some 0) (Some 10) (Some []) NoFilters
       None (Some [''id'', ''name'']) fresh_client =
     (Inr \<lparr> top_result = [ObjRow [(''id'', JNum 1), (''name'', JStr ''Ada'')],
                           ObjRow [(''id'', JNum 2), (''name'', JStr ''Alan'')]],
            top_fields = [''id'', ''name''] \<rparr>,
      \<lparr> version = None, connection = True, world = (),
        sent = [Some version_query,
                Some (genSelectNew plain_helpers ''people'' (Some 0) (Some 10) (Some []) NoFilters
                        None [''id'', ''name''])] \<rparr>)"
    using selectTop_fields_from_first_row [of people_driver plain_helpers "''people''" "Some 0" "Some 10"
        "Some []" NoFilters None "Some [''id'', ''name'']" fresh_client _ _ _ _ _ people_rows]
      selectTopSql_people [of plain_helpers "''people''" "Some 0" "Some 10" "Some []" NoFilters
        None "[''id'', ''name'']"]
      driverExecuteQuery_people_page [of plain_helpers "''people''" "Some 0" "Some 10" "Some []"
        NoFilters None "[''id'', ''name'']"]
    by (simp add: people_rows_def)
  from a b show ?thesis by simp
qed

section \<open>Change sets\<close>

lemma reselect_sent:
  "\<exists>l. sent (snd (reselect D qs acc st)) = sent st @ l \<and> set l \<subseteq> query_of ` set qs"
proof (induction qs arbitrary: acc st)
  case Nil
  show ?case by simp
next
  case (Cons qa qs)
  obtain l where l: "sent (snd (driverExecuteQuery D qa False st)) = sent st @ l"
    "set l \<subseteq> {query_of qa}"
    using driverExecuteQuery_sent by blast
  show ?case
  proof (cases "driverExecuteQuery D qa False st")
    case (Pair res st')
    show ?thesis
    proof (cases res)
      case (Inl e)
      with Pair l show ?thesis by auto
    next
      case (Inr r)
      obtain data n where r: "r = (data, n)" by (cases r)
      let ?acc = "case item0 data of Some x \<Rightarrow> acc @ [x] | None \<Rightarrow> acc"
      from Cons.IH [of ?acc st'] obtain l' where
        l': "sent (snd (reselect D qs ?acc st')) = sent st' @ l'" "set l' \<subseteq> query_of ` set qs"
        by blast
      from Pair l have "sent st' = sent st @ l" by simp
      with l' l have "sent (snd (reselect D qs ?acc st')) = sent st @ (l @ l')"
        "set (l @ l') \<subseteq> query_of ` set (qa # qs)" by auto
      with Pair Inr r show ?thesis by (simp del: append_assoc)
    qed
  qed
qed

lemma change_statements_envelope:
  "join '';'' (change_statements B ch) =
     envelope (block (buildInsertQueries B) (inserts ch) @
               block (buildUpdateQueries B) (updates ch) @
               block (buildDeleteQueries B) (deletes ch))"
  by (simp add: change_statements_def envelope_def)

lemma applyChanges_sent:
  assumes "reachable D st"
  shows "\<exists>later. sent (snd (applyChanges D B ch st)) =
                   sent st @ Some (join '';'' (change_statements B ch)) # later \<and>
                 set later \<subseteq> query_of ` set (case updates ch of None \<Rightarrow> []
                                               | Some us \<Rightarrow> buildSelectQueriesFromUpdates B us)"
proof -
  let ?q = "join '';'' (change_statements B ch)"
  have first: "sent (snd (driverExecuteQuery D (QObj ?q) False st)) = sent st @ [Some ?q]"
    using assms
    by (auto simp: reachable_def driverExecuteQuery_def runQuery_def runWithConnection_def Let_def
        split: prod.splits sum.splits option.splits)
  show ?thesis
  proof (cases "driverExecuteQuery D (QObj ?q) False st")
    case (Pair res st')
    with first have s': "sent st' = sent st @ [Some ?q]" by simp
    show ?thesis
    proof (cases res)
      case (Inl e)
      with Pair s' show ?thesis by (simp add: applyChanges_def)
    next
      case (Inr r)
      show ?thesis
      proof (cases "updates ch")
        case None
        with Pair Inr s' show ?thesis by (simp add: applyChanges_def)
      next
        case (Some us)
        obtain l where
          "sent (snd (reselect D (buildSelectQueriesFromUpdates B us) [] st')) = sent st' @ l"
          "set l \<subseteq> query_of ` set (buildSelectQueriesFromUpdates B us)"
          using reselect_sent by blast
        with Pair Inr Some s' show ?thesis by (simp add: applyChanges_def)
      qed
    qed
  qed
qed

text \<open>
  C3. With statement builders that produce nothing for an empty list and a reachable
  driver, \<^verbatim>\<open>applyChanges\<close> hands the driver one request
  \<^verbatim>\<open>SET XACT_ABORT ON;BEGIN TRANSACTION;<inserts>;<updates>;<deletes>;COMMIT\<close>, the three
  blocks in this order and each one empty when its list is absent or empty. It is sent
  once; whatever follows it are the re-selections of the updated rows.
\<close>

theorem applyChanges_one_ordered_batch:
  assumes "buildInsertQueries B [] = []" and "buildUpdateQueries B [] = []"
      and "buildDeleteQueries B [] = []" and "reachable D st"
  shows "\<exists>ins upd del later.
           ins = (case inserts ch of None \<Rightarrow> [] | Some xs \<Rightarrow> buildInsertQueries B xs) \<and>
           upd = (case updates ch of None \<Rightarrow> [] | Some xs \<Rightarrow> buildUpdateQueries B xs) \<and>
           del = (case deletes ch of None \<Rightarrow> [] | Some xs \<Rightarrow> buildDeleteQueries B xs) \<and>
           (inserts ch = None \<or> inserts ch = Some [] \<longrightarrow> ins = []) \<and>
           (updates ch = None \<or> updates ch = Some [] \<longrightarrow> upd = []) \<and>
           (deletes ch = None \<or> deletes ch = Some [] \<longrightarrow> del = []) \<and>
           sent (snd (applyChanges D B ch st)) =
             sent st @
             Some (join '';'' ([''SET XACT_ABORT ON'', ''BEGIN TRANSACTION''] @ ins @ upd @ del @
                               [''COMMIT''])) # later \<and>
           set later \<subseteq> query_of ` set (case updates ch of None \<Rightarrow> []
                                        | Some us \<Rightarrow> buildSelectQueriesFromUpdates B us)"
proof -
  obtain later where l: "sent (snd (applyChanges D B ch st)) =
                   sent st @ Some (join '';'' (change_statements B ch)) # later"
     "set later \<subseteq> query_of ` set (case updates ch of None \<Rightarrow> []
                                               | Some us \<Rightarrow> buildSelectQueriesFromUpdates B us)"
    using applyChanges_sent [OF assms(4)] by blast
  have e1: "inserts ch = None \<or> inserts ch = Some [] \<longrightarrow>
        (case inserts ch of None \<Rightarrow> [] | Some xs \<Rightarrow> buildInsertQueries B xs) = []"
    using assms(1) by auto
  have e2: "updates ch = None \<or> updates ch = Some [] \<longrightarrow>
        (case updates ch of None \<Rightarrow> [] | Some xs \<Rightarrow> buildUpdateQueries B xs) = []"
    using assms(2) by auto
  have e3: "deletes ch = None \<or> deletes ch = Some [] \<longrightarrow>
        (case deletes ch of None \<Rightarrow> [] | Some xs \<Rightarrow> buildDeleteQueries B xs) = []"
    using assms(3) by auto
  from l e1 e2 e3 show ?thesis
    by (simp add: change_statements_def block_def)
qed

theorem applyChanges_one_ordered_batch_witness:
  "sent (snd (applyChanges strict_driver text_builders
            \<lparr> inserts = Some [''1''], updates = Some [], deletes = Some [''id = 3''] \<rparr>
            connected_client)) =
     [Some ''SET XACT_ABORT ON;BEGIN TRANSACTION;INSERT INTO t VALUES (1);DELETE FROM t WHERE id = 3;COMMIT''] \<and>
   sent (snd (applyChanges strict_driver text_builders
            \<lparr> inserts = Some [''1''], updates = Some [''a = 2''], deletes = Some [''id = 3''] \<rparr>
            connected_client)) =
     [Some ''SET XACT_ABORT ON;BEGIN TRANSACTION;INSERT INTO t VALUES (1);UPDATE t SET a = 2;DELETE FROM t WHERE id = 3;COMMIT'',
      Some ''SELECT * FROM t WHERE id = 1'']"
proof -
  have a: "sent (snd (applyChanges strict_driver text_builders
            \<lparr> inserts = Some [''1''], updates = Some [], deletes = Some [''id = 3''] \<rparr>
            connected_client)) =
     [Some ''SET XACT_ABORT ON;BEGIN TRANSACTION;INSERT INTO t VALUES (1);DELETE FROM t WHERE id = 3;COMMIT'']"
    using applyChanges_one_ordered_batch [of text_builders strict_driver connected_client
        "\<lparr> inserts = Some [''1''], updates = Some [], deletes = Some [''id = 3''] \<rparr>"]
    by (simp add: text_builders_def reachable_def connected_client_def)
  have b: "sent (snd (applyChanges strict_driver text_builders
            \<lparr> inserts = Some [''1''], updates = Some [''a = 2''], deletes = Some [''id = 3''] \<rparr>
            connected_client)) =
     [Some ''SET XACT_ABORT ON;BEGIN TRANSACTION;INSERT INTO t VALUES (1);UPDATE t SET a = 2;DELETE FROM t WHERE id = 3;COMMIT'',
      Some ''SELECT * FROM t WHERE id = 1'']"
    by (simp add: applyChanges_def change_statements_def block_def driverExecuteQuery_def
        runQuery_def strict_driver_def envelope_def text_builders_def connected_client_def
        Let_def)
  from a b show ?thesis by simp
qed

lemma strict_rolls_back: "xact_abort_rolls_back strict_driver"
  by (auto simp: xact_abort_rolls_back_def strict_driver_def split: if_splits)

lemma null_update_batch:
  "join '';'' (change_statements text_builders null_update) =
     envelope [''UPDATE t SET name = NULL WHERE id = 1'']"
  by (simp add: change_statements_def envelope_def block_def text_builders_def null_update_def)

text \<open>
  C4. On a connected client, and a server on which a failing request in the
  \<^verbatim>\<open>SET XACT_ABORT ON; BEGIN TRANSACTION; ... COMMIT\<close> envelope leaves everything as it
  was: when the change-set request fails, \<^verbatim>\<open>applyChanges\<close> rethrows that error, returns
  no rows, sends nothing after the failed request, and the world, hence the answer to any
  later read, is unchanged.
\<close>

theorem applyChanges_failure_rolls_back:
  assumes "xact_abort_rolls_back D" and "connection st"
      and "request_query D (Some (join '';'' (change_statements B ch))) False (world st) =
             (Inl e, w')"
  shows "applyChanges D B ch st =
           (Inl e, st\<lparr>sent := sent st @ [Some (join '';'' (change_statements B ch))]\<rparr>) \<and>
         world (snd (applyChanges D B ch st)) = world st \<and>
         (\<forall>q arr. request_query D q arr (world (snd (applyChanges D B ch st))) =
                  request_query D q arr (world st))"
proof -
  from assms(1) assms(3) have "w' = world st"
    unfolding xact_abort_rolls_back_def change_statements_envelope by blast
  with assms(2) assms(3) have
    "applyChanges D B ch st =
       (Inl e, st\<lparr>sent := sent st @ [Some (join '';'' (change_statements B ch))]\<rparr>)"
    by (simp add: applyChanges_def driverExecuteQuery_def runQuery_def Let_def)
  then show ?thesis by simp
qed

theorem applyChanges_failure_rolls_back_witness:
  "applyChanges strict_driver text_builders null_update connected_client =
     (Inl (DriverError ''Cannot insert the value NULL into column name''),
      \<lparr> version = None, connection = True, world = 7,
        sent = [Some (envelope [''UPDATE t SET name = NULL WHERE id = 1''])] \<rparr>)"
proof -
  have c: "connection connected_client" by (simp add: connected_client_def)
  have f: "request_query strict_driver
             (Some (join '';'' (change_statements text_builders null_update))) False
             (world connected_client) =
           (Inl (DriverError ''Cannot insert the value NULL into column name''), 7)"
    unfolding null_update_batch by (simp add: strict_driver_def connected_client_def)
  from applyChanges_failure_rolls_back [OF strict_rolls_back c f] show ?thesis
    unfolding null_update_batch by (simp add: connected_client_def)
qed

section \<open>The ORDER BY of the ranked subquery\<close>

lemma wrapped_eq: "wrapped s = (if s = ''*'' then ''*'' else ''['' @ s @ '']'')"
  by (simp add: wrapped_def replace_all_same)

lemma order_entry_nonempty: "order_entry item \<noteq> []"
  by (cases item) (auto simp: wrapped_eq)

lemma join_nonempty: "x \<noteq> [] \<Longrightarrow> join sep (x # xs) \<noteq> []"
  by (cases xs) auto

lemma genSelectOld_window:
  "\<exists>p s. \<forall>orderBy. genSelectOld H t off lim orderBy f sch sel =
       p @ ''ROW_NUMBER() OVER ('' @ genOrderByString orderBy @ '') as RowNumber'' @ s"
proof -
  let ?p = "''\<newline>      WITH CTE AS\<newline>      (\<newline>          SELECT '' @
            join '', '' (map wrapped sel) @ ''\<newline>                , ''"
  let ?s = "''\<newline>          FROM '' @ schemaStringOf sch @ wrapped t @
         ''\<newline>          '' @ filterStringOf H f @
         ''\<newline>      )\<newline>      SELECT *'' @
         ''\<newline>            -- get the total records so the web layer can work out'' @
         ''\<newline>            -- how many pages there are'' @
         ''\<newline>            , (SELECT COUNT(*) FROM CTE) AS TotalRecords'' @
         ''\<newline>      FROM CTE'' @
         ''\<newline>      WHERE RowNumber BETWEEN '' @ num_string off @ '' AND '' @
         string_of_int (num_value off + num_value lim) @
         ''\<newline>      ORDER BY RowNumber ASC\<newline>    ''"
  have "\<forall>orderBy. genSelectOld H t off lim orderBy f sch sel =
       ?p @ ''ROW_NUMBER() OVER ('' @ genOrderByString orderBy @ '') as RowNumber'' @ ?s"
    by (simp add: genSelectOld_def Let_def)
  then show ?thesis by blast
qed

text \<open>
  C7. The ranking function should never be emitted without an ORDER BY. With an order list
  that is absent (\<^verbatim>\<open>null\<close> or \<^verbatim>\<open>undefined\<close>) \<^verbatim>\<open>genOrderByString\<close> returns the
  empty string before it reaches its default, and the legacy query for the first ten rows
  of \<^verbatim>\<open>t\<close> carries \<^verbatim>\<open>ROW_NUMBER() OVER ()\<close>.
\<close>

theorem genSelectOld_absent_order_list:
  "genSelectOld plain_helpers ''t'' (Some 0) (Some 10) None NoFilters None [''*''] =
     ''\<newline>      WITH CTE AS\<newline>      (\<newline>          SELECT *\<newline>                , ROW_NUMBER() OVER () as RowNumber\<newline>          FROM [t]\<newline>          \<newline>      )\<newline>      SELECT *\<newline>            -- get the total records so the web layer can work out\<newline>            -- how many pages there are\<newline>            , (SELECT COUNT(*) FROM CTE) AS TotalRecords\<newline>      FROM CTE\<newline>      WHERE RowNumber BETWEEN 0 AND 10\<newline>      ORDER BY RowNumber ASC\<newline>    ''"
  by (simp add: genSelectOld_def genOrderByString_def filterStringOf_def buildFilterString_def
      schemaStringOf_def wrapped_def num_string_def num_value_def string_of_int_def
      digit_char_def Let_def)

text \<open>
  For an order list that is an array the window does contain an ORDER BY:
  \<^verbatim>\<open>ORDER BY (SELECT NULL)\<close> for the empty list, and \<^verbatim>\<open>ORDER BY\<close> followed by a
  non-empty list of entries in every case. A bare entry is rendered as the wrapped field
  alone, with no direction, which is ascending order.
\<close>

lemma genSelectOld_order_by:
  "genOrderByString (Some []) = ''ORDER BY (SELECT NULL)'' \<and>
   (\<exists>p s. genSelectOld H t off lim (Some []) f sch sel =
      p @ ''ROW_NUMBER() OVER (ORDER BY (SELECT NULL)) as RowNumber'' @ s) \<and>
   (\<forall>items. \<exists>entries p s. entries \<noteq> [] \<and>
      genOrderByString (Some items) = ''ORDER BY '' @ entries \<and>
      genSelectOld H t off lim (Some items) f sch sel =
        p @ ''ROW_NUMBER() OVER (ORDER BY '' @ entries @ '') as RowNumber'' @ s) \<and>
   genOrderByString (Some (map OrderField (x # xs))) =
     ''ORDER BY '' @ join '','' (map wrapped (x # xs))"
proof -
  obtain p s where w: "\<And>orderBy. genSelectOld H t off lim orderBy f sch sel =
       p @ ''ROW_NUMBER() OVER ('' @ genOrderByString orderBy @ '') as RowNumber'' @ s"
    using genSelectOld_window by blast
  have a: "genOrderByString (Some []) = ''ORDER BY (SELECT NULL)''"
    by (simp add: genOrderByString_def)
  have b: "\<exists>p s. genSelectOld H t off lim (Some []) f sch sel =
      p @ ''ROW_NUMBER() OVER (ORDER BY (SELECT NULL)) as RowNumber'' @ s"
    using w [of "Some []"] a by auto
  have c: "\<exists>entries p s. entries \<noteq> [] \<and>
      genOrderByString (Some items) = ''ORDER BY '' @ entries \<and>
      genSelectOld H t off lim (Some items) f sch sel =
        p @ ''ROW_NUMBER() OVER (ORDER BY '' @ entries @ '') as RowNumber'' @ s" for items
  proof (cases items)
    case Nil
    have "genOrderByString (Some items) = ''ORDER BY '' @ ''(SELECT NULL)''"
      using Nil by (simp add: genOrderByString_def)
    moreover have "genSelectOld H t off lim (Some items) f sch sel =
        p @ ''ROW_NUMBER() OVER (ORDER BY '' @ ''(SELECT NULL)'' @ '') as RowNumber'' @ s"
      using w [of "Some items"] Nil by (simp add: genOrderByString_def)
    moreover have "''(SELECT NULL)'' \<noteq> []" by simp
    ultimately show ?thesis by blast
  next
    case (Cons i rest)
    let ?e = "join '','' (map order_entry items)"
    have e: "?e \<noteq> []" using Cons join_nonempty [OF order_entry_nonempty] by simp
    have g: "genOrderByString (Some items) = ''ORDER BY '' @ ?e"
      using Cons by (simp add: genOrderByString_def)
    have "genSelectOld H t off lim (Some items) f sch sel =
        p @ ''ROW_NUMBER() OVER (ORDER BY '' @ ?e @ '') as RowNumber'' @ s"
      unfolding w [of "Some items"] g by simp
    with e g show ?thesis by blast
  qed
  have d: "genOrderByString (Some (map OrderField (x # xs))) =
     ''ORDER BY '' @ join '','' (map wrapped (x # xs))"
  proof -
    have "order_entry \<circ> OrderField = wrapped" by (rule ext) simp
    then show ?thesis by (simp add: genOrderByString_def)
  qed
  from a b c d show ?thesis by blast
qed

section \<open>Indexes of a table\<close>

lemma set_first_occurrences: "set (first_occurrences xs) = set xs"
  by (simp add: first_occurrences_def)

lemma distinct_first_occurrences: "distinct (first_occurrences xs)"
  by (simp add: first_occurrences_def)

lemma set_own_keys: "set (own_keys ks) = set ks"
  by (auto simp: own_keys_def)

lemma distinct_own_keys: "distinct ks \<Longrightarrow> distinct (own_keys ks)"
  by (auto simp: own_keys_def)

lemma groupBy_fst: "map fst (groupBy f xs) = own_keys (first_occurrences (map f xs))"
  by (simp add: groupBy_def comp_def)

lemma groupBy_member:
  "g \<in> set (groupBy f xs) \<Longrightarrow> fst g \<in> f ` set xs \<and> snd g = filter (\<lambda>x. f x = fst g) xs"
  by (auto simp: groupBy_def set_own_keys set_first_occurrences)

lemma filter_key_nonempty: "k \<in> f ` set xs \<Longrightarrow> filter (\<lambda>x. f x = k) xs \<noteq> []"
  by (auto simp: filter_empty_conv)

lemma index_names:
  "map ti_name (map (index_of_group t s) (groupBy index_name recs)) =
     own_keys (first_occurrences (map index_name recs))"
proof -
  have "map ti_name (map (index_of_group t s) (groupBy index_name recs)) =
        map fst (groupBy index_name recs)"
    by (simp add: index_of_group_def Let_def)
  then show ?thesis by (simp only: groupBy_fst)
qed

lemma distinct_map_sort_key:
  "distinct (map g (sort_key f xs)) = distinct (map g xs)"
  by (simp add: distinct_map)

text \<open>
  C8. \<^verbatim>\<open>listTableIndexes\<close> returns one record per index name that occurs in the catalog
  rows, ordered by index id. Each record takes its id and its uniqueness and primary flags
  from the first row of its group and lists the group's columns sorted by column id,
  each with the direction DESC or ASC of its row.
\<close>

theorem listTableIndexes_grouped:
  "distinct (map ti_name (listTableIndexes t s recs)) \<and>
   set (map ti_name (listTableIndexes t s recs)) = index_name ` set recs \<and>
   sorted (map ti_id (listTableIndexes t s recs)) \<and>
   (\<forall>ix \<in> set (listTableIndexes t s recs).
      let blob = filter (\<lambda>r. index_name r = ti_name ix) recs in
        blob \<noteq> [] \<and>
        ti_unique ix = is_unique (hd blob) \<and> ti_primary ix = is_primary (hd blob) \<and>
        ti_id ix = index_id (hd blob) \<and>
        ti_columns ix =
          map (\<lambda>c. \<lparr> ic_name = column_name c,
                      ic_order = (if is_descending c then ''DESC'' else ''ASC'') \<rparr>)
              (sort_key column_id blob) \<and>
        sorted (map column_id (sort_key column_id blob)))"
proof -
  let ?gs = "map (index_of_group t s) (groupBy index_name recs)"
  have names: "map ti_name ?gs = own_keys (first_occurrences (map index_name recs))"
    by (rule index_names)
  have a: "distinct (map ti_name (listTableIndexes t s recs))"
    unfolding listTableIndexes_def distinct_map_sort_key names
    by (rule distinct_own_keys) (rule distinct_first_occurrences)
  have "set (map ti_name (listTableIndexes t s recs)) = set (map ti_name ?gs)"
    by (simp add: listTableIndexes_def image_image)
  then have b: "set (map ti_name (listTableIndexes t s recs)) = index_name ` set recs"
    unfolding names by (simp add: set_own_keys set_first_occurrences)
  have c: "sorted (map ti_id (listTableIndexes t s recs))"
    by (simp add: listTableIndexes_def)
  have d: "\<forall>ix \<in> set (listTableIndexes t s recs).
      let blob = filter (\<lambda>r. index_name r = ti_name ix) recs in
        blob \<noteq> [] \<and>
        ti_unique ix = is_unique (hd blob) \<and> ti_primary ix = is_primary (hd blob) \<and>
        ti_id ix = index_id (hd blob) \<and>
        ti_columns ix =
          map (\<lambda>c. \<lparr> ic_name = column_name c,
                      ic_order = (if is_descending c then ''DESC'' else ''ASC'') \<rparr>)
              (sort_key column_id blob) \<and>
        sorted (map column_id (sort_key column_id blob))"
  proof
    fix ix assume "ix \<in> set (listTableIndexes t s recs)"
    then obtain g where g: "g \<in> set (groupBy index_name recs)" and ix: "ix = index_of_group t s g"
      by (auto simp: listTableIndexes_def)
    from groupBy_member [OF g] have k: "fst g \<in> index_name ` set recs"
      and blob: "snd g = filter (\<lambda>r. index_name r = fst g) recs" by simp_all
    have ne: "filter (\<lambda>r. index_name r = fst g) recs \<noteq> []"
      using k by (rule filter_key_nonempty)
    have nm: "ti_name ix = fst g" by (simp add: ix index_of_group_def Let_def)
    show "let blob = filter (\<lambda>r. index_name r = ti_name ix) recs in
        blob \<noteq> [] \<and>
        ti_unique ix = is_unique (hd blob) \<and> ti_primary ix = is_primary (hd blob) \<and>
        ti_id ix = index_id (hd blob) \<and>
        ti_columns ix =
          map (\<lambda>c. \<lparr> ic_name = column_name c,
                      ic_order = (if is_descending c then ''DESC'' else ''ASC'') \<rparr>)
              (sort_key column_id blob) \<and>
        sorted (map column_id (sort_key column_id blob))"
      unfolding nm Let_def using ne blob
      by (simp add: ix index_of_group_def Let_def index_column_of_def)
  qed
  from a b c d show ?thesis by blast
qed

lemma catalog_indexes:
  "listTableIndexes ''people'' ''dbo'' catalog_rows =
     [\<lparr> ti_table = ''people'', ti_schema = ''dbo'', ti_id = 1, ti_name = ''pk'', ti_unique = True,
        ti_primary = True, ti_columns = [\<lparr> ic_name = ''id'', ic_order = ''ASC'' \<rparr>] \<rparr>,
      \<lparr> ti_table = ''people'', ti_schema = ''dbo'', ti_id = 2, ti_name = ''by_name'',
        ti_unique = True, ti_primary = False,
        ti_columns = [\<lparr> ic_name = ''first'', ic_order = ''ASC'' \<rparr>,
                      \<lparr> ic_name = ''last'', ic_order = ''DESC'' \<rparr>] \<rparr>]"
  by (simp add: listTableIndexes_def groupBy_def own_keys_def first_occurrences_def
      is_array_index_def is_digit_def catalog_rows_def row_of_def index_of_group_def
      index_column_of_def Let_def)

theorem listTableIndexes_grouped_witness:
  "listTableIndexes ''people'' ''dbo'' catalog_rows =
     [\<lparr> ti_table = ''people'', ti_schema = ''dbo'', ti_id = 1, ti_name = ''pk'', ti_unique = True,
        ti_primary = True, ti_columns = [\<lparr> ic_name = ''id'', ic_order = ''ASC'' \<rparr>] \<rparr>,
      \<lparr> ti_table = ''people'', ti_schema = ''dbo'', ti_id = 2, ti_name = ''by_name'',
        ti_unique = True, ti_primary = False,
        ti_columns = [\<lparr> ic_name = ''first'', ic_order = ''ASC'' \<rparr>,
                      \<lparr> ic_name = ''last'', ic_order = ''DESC'' \<rparr>] \<rparr>] \<and>
   sorted (map ti_id (listTableIndexes ''people'' ''dbo'' catalog_rows)) \<and>
   distinct (map ti_name (listTableIndexes ''people'' ''dbo'' catalog_rows))"
  using listTableIndexes_grouped [of "''people''" "''dbo''" catalog_rows] catalog_indexes
  by simp

end
